theory Spec2Isabelle
  imports Main
begin

section \<open>Data model (src/types.ts)\<close>

text \<open>
  Strings are byte strings: a JavaScript string is modelled by the list of its characters,
  for text in the ASCII range. The numbers of the program are years and counters; they are
  modelled as integers, which is exact for the integers that a JavaScript number holds
  exactly (magnitude below \<open>2^53\<close>). An optional field \<open>f?: T\<close> is a field of type
  \<open>T option\<close>.
\<close>

datatype SchoolLevel = elementary | middle | high

datatype StudentStatus = active | transferred | graduated

record Student =
  studentId :: string
  firstName :: string
  lastName :: string
  grade :: string
  email :: "string option"
  graduationYear :: int
  enrollmentDate :: "string option"
  parentEmail :: "string option"
  status :: "StudentStatus option"
  deviceSerial :: "string option"

text \<open>
  The clock. \<open>new Date()\<close> is read by the organisational-unit manager; the model takes the
  value read as a parameter: \<open>getFullYear()\<close>, \<open>getMonth() + 1\<close> and the day part of
  \<open>toISOString()\<close>.
\<close>

record Date =
  fullYear :: int
  monthNumber :: int
  isoDay :: string

record GradeEntry =
  schoolLevel :: SchoolLevel
  gradeNumber :: int

text \<open>
  Directory accounts and devices: the fields of \<open>GoogleUser\<close> and \<open>ChromeDevice\<close> that the
  engine reads or writes. The name object is flattened to its two fields, and the custom
  schema is the \<open>student_info\<close> entry that \<open>createUser\<close> writes.
\<close>

record ExternalId =
  idValue :: string
  idType :: string
  customType :: "string option"

record StudentInfo =
  graduation_year :: string
  enrollment_date :: string
  parent_email :: string

record GoogleUser =
  userId :: "string option"
  primaryEmail :: string
  givenName :: string
  familyName :: string
  suspended :: "bool option"
  orgUnitPath :: "string option"
  externalIds :: "ExternalId list option"
  password :: "string option"
  changePasswordAtNextLogin :: "bool option"
  customSchemas :: "StudentInfo option"

record ChromeDevice =
  deviceId :: "string option"
  serialNumber :: "string option"
  deviceOrgUnitPath :: "string option"

datatype ActionType = create | move | deactivate | update | move_device

record SyncAction =
  type :: ActionType
  student :: Student
  currentUser :: "GoogleUser option"
  currentDevice :: "ChromeDevice option"
  targetOUPath :: string
  reason :: string

text \<open>\<open>SyncResult\<close>: the error, when present, is an \<open>Error\<close> object, kept as its message.\<close>

record SyncResult =
  success :: bool
  action :: SyncAction
  error :: "string option"

text \<open>\<open>SyncSummary\<close> without its three time stamps.\<close>

record SyncSummary =
  totalProcessed :: nat
  created :: nat
  moved :: nat
  deactivated :: nat
  updated :: nat
  errors :: nat
  results :: "SyncResult list"

datatype GraduationYearFormat = two_digit | four_digit

record EmailConfig =
  graduationYearFormat :: GraduationYearFormat
  separator :: "string option"

text \<open>
  \<open>PasswordConfig\<close>. The configuration is read from a JSON file and cast, so the
  strategy can be a string outside the three declared ones (\<open>other_type\<close>).
\<close>

datatype PasswordType = prefix_studentid | random | custom_function | other_type

record PasswordConfig =
  pwType :: PasswordType
  prefix :: "string option"
  pwLength :: "int option"
  includeUppercase :: "bool option"
  includeLowercase :: "bool option"
  includeNumbers :: "bool option"
  includeSymbols :: "bool option"
  customPattern :: "string option"

text \<open>
  The fields of \<open>Config\<close> that the engine reads. The two numeric settings are natural
  numbers; the three optional mode switches are false when absent.
\<close>

record Config =
  googleDomain :: string
  dryRun :: bool
  maxConcurrentRequests :: nat
  requireConfirmationThreshold :: nat
  createOnly :: bool
  moveOnly :: bool
  deactivateOnly :: bool
  passwordConfig :: "PasswordConfig option"
  emailConfig :: "EmailConfig option"
  passwordPrefix :: "string option"

text \<open>Truthiness of an optional string and of an optional boolean.\<close>

definition truthyStr :: "string option \<Rightarrow> bool" where
  "truthyStr v = (case v of None \<Rightarrow> False | Some x \<Rightarrow> x \<noteq> [])"

definition truthyBool :: "bool option \<Rightarrow> bool" where
  "truthyBool v = (case v of None \<Rightarrow> False | Some b \<Rightarrow> b)"

text \<open>\<open>v || d\<close> for an optional string \<open>v\<close>.\<close>

definition orElse :: "string option \<Rightarrow> string \<Rightarrow> string" where
  "orElse v d = (case v of None \<Rightarrow> d | Some x \<Rightarrow> if x = [] then d else x)"

section \<open>String primitives of the host language\<close>

definition isLowerAZ :: "char \<Rightarrow> bool" where
  "isLowerAZ c = (97 \<le> (of_char c :: nat) \<and> (of_char c :: nat) \<le> 122)"

definition isUpperAZ :: "char \<Rightarrow> bool" where
  "isUpperAZ c = (65 \<le> (of_char c :: nat) \<and> (of_char c :: nat) \<le> 90)"

definition isDigit :: "char \<Rightarrow> bool" where
  "isDigit c = (48 \<le> (of_char c :: nat) \<and> (of_char c :: nat) \<le> 57)"

definition isSpace :: "char \<Rightarrow> bool" where
  "isSpace c = ((of_char c :: nat) = 32 \<or> (9 \<le> (of_char c :: nat) \<and> (of_char c :: nat) \<le> 13))"

definition lowerChar :: "char \<Rightarrow> char" where
  "lowerChar c = (if isUpperAZ c then char_of ((of_char c :: nat) + 32) else c)"

text \<open>\<open>String.prototype.toLowerCase\<close>\<close>

definition toLowerCase :: "string \<Rightarrow> string" where
  "toLowerCase s = map lowerChar s"

text \<open>\<open>String.prototype.startsWith\<close> and \<open>String.prototype.substring\<close> with one argument\<close>

definition startsWith :: "string \<Rightarrow> string \<Rightarrow> bool" where
  "startsWith s p = (take (length p) s = p)"

definition substring :: "string \<Rightarrow> nat \<Rightarrow> string" where
  "substring s n = drop n s"

text \<open>\<open>String.prototype.includes\<close>: some suffix of the string starts with the pattern.\<close>

fun includes_str :: "string \<Rightarrow> string \<Rightarrow> bool" where
  "includes_str [] p = (p = [])"
| "includes_str (c # cs) p = (startsWith (c # cs) p \<or> includes_str cs p)"

text \<open>
  \<open>String.prototype.split\<close> on a one-character separator; the empty string splits into
  one empty part.
\<close>

fun split :: "char \<Rightarrow> string \<Rightarrow> string list" where
  "split sep [] = [[]]"
| "split sep (c # cs) =
     (if c = sep then [] # split sep cs
      else (case split sep cs of
              [] \<Rightarrow> [[c]]
            | p # ps \<Rightarrow> (c # p) # ps))"

text \<open>
  Decimal rendering of an integer, as a template literal and \<open>toString()\<close> render an
  integral number in the range above.
\<close>

fun showNat :: "nat \<Rightarrow> string" where
  "showNat n =
     (if n < 10 then [char_of (48 + n)]
      else showNat (n div 10) @ [char_of (48 + n mod 10)])"

declare showNat.simps [simp del]

definition toString :: "int \<Rightarrow> string" where
  "toString i = (if i < 0 then CHR ''-'' # showNat (nat (- i)) else showNat (nat i))"

text \<open>
  \<open>parseInt(s, 10)\<close>: leading white space is skipped, one sign is accepted, the longest
  run of decimal digits is read; \<open>None\<close> stands for \<open>NaN\<close>.
\<close>

definition digitValue :: "char \<Rightarrow> int" where
  "digitValue c = int (of_char c) - 48"

definition readDigits :: "string \<Rightarrow> int option" where
  "readDigits s =
     (let ds = takeWhile isDigit s
      in if ds = [] then None else Some (foldl (\<lambda>acc c. acc * 10 + digitValue c) 0 ds))"

definition parseInt :: "string \<Rightarrow> int option" where
  "parseInt s =
     (case dropWhile isSpace s of
        [] \<Rightarrow> None
      | c # cs \<Rightarrow>
          if c = CHR ''-'' then map_option uminus (readDigits cs)
          else if c = CHR ''+'' then readDigits cs
          else readDigits (c # cs))"

section \<open>The organisational-unit manager (src/unnamed/part_002, class OUManager)\<close>

text \<open>
  The grade table \<open>gradeMapping\<close>; a grade code outside the table has no entry (the names
  of the members that every object inherits are left aside).
\<close>

definition gradeMapping :: "(string \<times> GradeEntry) list" where
  "gradeMapping =
     [(''4K'', \<lparr>schoolLevel = elementary, gradeNumber = - 1\<rparr>),
      (''K'', \<lparr>schoolLevel = elementary, gradeNumber = 0\<rparr>),
      (''1'', \<lparr>schoolLevel = elementary, gradeNumber = 1\<rparr>),
      (''2'', \<lparr>schoolLevel = elementary, gradeNumber = 2\<rparr>),
      (''3'', \<lparr>schoolLevel = elementary, gradeNumber = 3\<rparr>),
      (''4'', \<lparr>schoolLevel = elementary, gradeNumber = 4\<rparr>),
      (''5'', \<lparr>schoolLevel = elementary, gradeNumber = 5\<rparr>),
      (''6'', \<lparr>schoolLevel = middle, gradeNumber = 6\<rparr>),
      (''7'', \<lparr>schoolLevel = middle, gradeNumber = 7\<rparr>),
      (''8'', \<lparr>schoolLevel = middle, gradeNumber = 8\<rparr>),
      (''9'', \<lparr>schoolLevel = high, gradeNumber = 9\<rparr>),
      (''10'', \<lparr>schoolLevel = high, gradeNumber = 10\<rparr>),
      (''11'', \<lparr>schoolLevel = high, gradeNumber = 11\<rparr>),
      (''12'', \<lparr>schoolLevel = high, gradeNumber = 12\<rparr>)]"

datatype OUError = InvalidGrade string

definition getSchoolLevel :: "string \<Rightarrow> OUError + SchoolLevel" where
  "getSchoolLevel g =
     (case map_of gradeMapping g of
        None \<Rightarrow> Inl (InvalidGrade g)
      | Some mapping \<Rightarrow> Inr (schoolLevel mapping))"

definition currentSchoolYear :: "Date \<Rightarrow> int" where
  "currentSchoolYear now =
     (let currentYear = fullYear now;
          currentMonth = monthNumber now;
          isBeforeSchoolYearEnd = (currentMonth < 6)
      in if isBeforeSchoolYearEnd then currentYear - 1 else currentYear)"

definition getSchoolLevelFromGradYear :: "Date \<Rightarrow> int \<Rightarrow> SchoolLevel" where
  "getSchoolLevelFromGradYear now gradYear =
     (let yearsUntilGraduation = gradYear - currentSchoolYear now
      in if yearsUntilGraduation \<le> 4 then high
         else if yearsUntilGraduation \<le> 7 then middle
         else elementary)"

definition calculateGraduationYear :: "string \<Rightarrow> Date \<Rightarrow> OUError + int" where
  "calculateGraduationYear g currentDate =
     (case map_of gradeMapping g of
        None \<Rightarrow> Inl (InvalidGrade g)
      | Some mapping \<Rightarrow>
          (let yearsUntilGraduation = 12 - gradeNumber mapping
           in Inr (currentSchoolYear currentDate + yearsUntilGraduation + 1)))"

text \<open>The order in which a pupil passes through the school levels.\<close>

fun levelRank :: "SchoolLevel \<Rightarrow> nat" where
  "levelRank elementary = 0"
| "levelRank middle = 1"
| "levelRank high = 2"

text \<open>The value of a \<open>SchoolLevel\<close> is its name; \<open>isValidSchoolLevel\<close> recognises the three names.\<close>

fun levelName :: "SchoolLevel \<Rightarrow> string" where
  "levelName elementary = ''elementary''"
| "levelName middle = ''middle''"
| "levelName high = ''high''"

definition isValidSchoolLevel :: "string \<Rightarrow> bool" where
  "isValidSchoolLevel level = (level \<in> set [''elementary'', ''middle'', ''high''])"

definition asSchoolLevel :: "string \<Rightarrow> SchoolLevel" where
  "asSchoolLevel level =
     (if level = ''elementary'' then elementary else if level = ''middle'' then middle else high)"

text \<open>\<open>generateStudentOUName\<close>: both names lower-cased, every character outside a-z and 0-9 removed.\<close>

definition generateStudentOUName :: "Student \<Rightarrow> string" where
  "generateStudentOUName st =
     (let first = filter (\<lambda>c. isLowerAZ c \<or> isDigit c) (toLowerCase (firstName st));
          last = filter (\<lambda>c. isLowerAZ c \<or> isDigit c) (toLowerCase (lastName st))
      in first @ ''.'' @ last)"

text \<open>\<open>getStudentOUPath\<close>; the first argument is the field \<open>baseStudentOU\<close> of the manager.\<close>

definition getStudentOUPath :: "string \<Rightarrow> Date \<Rightarrow> Student \<Rightarrow> string" where
  "getStudentOUPath baseStudentOU now st =
     (let level = getSchoolLevelFromGradYear now (graduationYear st);
          gradYear = graduationYear st;
          studentName = generateStudentOUName st
      in baseStudentOU @ ''/'' @ levelName level @ ''/'' @ toString gradYear @ ''/'' @ studentName)"

record ParsedOUPath =
  parsedSchoolLevel :: "SchoolLevel option"
  parsedGraduationYear :: "int option"
  parsedStudentId :: "string option"

definition emptyParsedOUPath :: ParsedOUPath where
  "emptyParsedOUPath =
     \<lparr>parsedSchoolLevel = None, parsedGraduationYear = None, parsedStudentId = None\<rparr>"

definition parseOUPath :: "string \<Rightarrow> string \<Rightarrow> ParsedOUPath" where
  "parseOUPath baseStudentOU ouPath =
     (if \<not> startsWith ouPath baseStudentOU then emptyParsedOUPath
      else
        (let relativePath = substring ouPath (length baseStudentOU);
             parts = filter (\<lambda>p. p \<noteq> []) (split CHR ''/'' relativePath)
         in if length parts \<ge> 1 then
              (let r1 = (if isValidSchoolLevel (parts ! 0)
                         then emptyParsedOUPath\<lparr>parsedSchoolLevel := Some (asSchoolLevel (parts ! 0))\<rparr>
                         else emptyParsedOUPath);
                   r2 = (if length parts \<ge> 2 then
                           (case parseInt (parts ! 1) of
                              None \<Rightarrow> r1
                            | Some yr \<Rightarrow> r1\<lparr>parsedGraduationYear := Some yr\<rparr>)
                         else r1)
               in if length parts \<ge> 3 then r2\<lparr>parsedStudentId := Some (parts ! 2)\<rparr> else r2)
            else emptyParsedOUPath))"

text \<open>\<open>shouldMoveStudent\<close>: a missing or empty current path is falsy.\<close>

definition shouldMoveStudent :: "string \<Rightarrow> Date \<Rightarrow> Student \<Rightarrow> string option \<Rightarrow> bool" where
  "shouldMoveStudent baseStudentOU now st currentOUPath =
     (case currentOUPath of
        None \<Rightarrow> True
      | Some cur \<Rightarrow>
          if cur = [] then True
          else cur \<noteq> getStudentOUPath baseStudentOU now st)"

text \<open>
  \<open>generateEmailAddress(student, domain)\<close>. The method has two parameters; a third
  argument of a call is not bound to anything.
\<close>

definition generateEmailAddress :: "Student \<Rightarrow> string \<Rightarrow> string" where
  "generateEmailAddress st domain =
     (let first = filter isLowerAZ (toLowerCase (firstName st));
          last = filter isLowerAZ (toLowerCase (lastName st));
          yr = graduationYear st
      in first @ ''.'' @ last @ toString yr @ ''@'' @ domain)"

definition isStudentOU :: "string \<Rightarrow> string \<Rightarrow> bool" where
  "isStudentOU baseStudentOU ouPath = startsWith ouPath baseStudentOU"

definition isActiveStudentOU :: "string \<Rightarrow> string \<Rightarrow> bool" where
  "isActiveStudentOU baseStudentOU ouPath =
     (if \<not> isStudentOU baseStudentOU ouPath then False
      else \<not> includes_str ouPath ''hidden_aliases''
           \<and> \<not> includes_str ouPath ''archived''
           \<and> \<not> includes_str ouPath ''suspended'')"

definition getStudentStatus :: "Date \<Rightarrow> Student \<Rightarrow> StudentStatus" where
  "getStudentStatus now st =
     (case status st of
        Some explicit \<Rightarrow> explicit
      | None \<Rightarrow>
          (let currentYear = fullYear now;
               currentMonth = monthNumber now;
               hasGraduated = (graduationYear st < currentYear
                                \<or> (graduationYear st = currentYear \<and> currentMonth \<ge> 6))
           in if hasGraduated then graduated else active))"

text \<open>
  The call \<open>generateEmailAddress(student, googleDomain, emailConfig)\<close> made by
  \<open>SyncEngine.createUser\<close> and by the tests: three arguments are passed to the
  two-parameter method.
\<close>

definition generateEmailAddress_call :: "Student \<Rightarrow> string \<Rightarrow> EmailConfig option \<Rightarrow> string" where
  "generateEmailAddress_call st domain emailCfg = generateEmailAddress st domain"

section \<open>The planner (src/unnamed/part_003, class SyncEngine)\<close>

text \<open>
  The functions take the field \<open>baseStudentOU\<close> of the injected manager and the clock, and
  the configuration where the method reads it.

  The two indexes built by the first loop of \<open>determineActions\<close>: a later roster record
  with the same key replaces an earlier one.
\<close>

definition studentsByEmail :: "Student list \<Rightarrow> (string \<rightharpoonup> Student)" where
  "studentsByEmail students =
     foldl (\<lambda>m s. case email s of
                     None \<Rightarrow> m
                   | Some e \<Rightarrow> if e = [] then m else m(toLowerCase e \<mapsto> s))
       Map.empty students"

definition studentsByStudentId :: "Student list \<Rightarrow> (string \<rightharpoonup> Student)" where
  "studentsByStudentId students = foldl (\<lambda>m s. m(studentId s \<mapsto> s)) Map.empty students"

fun findStudentByExternalIdLoop :: "(string \<rightharpoonup> Student) \<Rightarrow> ExternalId list \<Rightarrow> Student option" where
  "findStudentByExternalIdLoop byId [] = None"
| "findStudentByExternalIdLoop byId (externalId # rest) =
     (if idType externalId = ''custom'' \<and> customType externalId = Some ''student_id''
      then (case byId (idValue externalId) of
              Some st \<Rightarrow> Some st
            | None \<Rightarrow> findStudentByExternalIdLoop byId rest)
      else findStudentByExternalIdLoop byId rest)"

definition findStudentByExternalId :: "GoogleUser \<Rightarrow> (string \<rightharpoonup> Student) \<Rightarrow> Student option" where
  "findStudentByExternalId user byId =
     (case externalIds user of
        None \<Rightarrow> None
      | Some ids \<Rightarrow> findStudentByExternalIdLoop byId ids)"

definition createPlaceholderStudent :: "GoogleUser \<Rightarrow> Student" where
  "createPlaceholderStudent user =
     \<lparr>studentId = orElse (userId user) ''unknown'',
      firstName = givenName user,
      lastName = familyName user,
      grade = ''unknown'',
      email = Some (primaryEmail user),
      graduationYear = 0,
      enrollmentDate = None, parentEmail = None, status = None, deviceSerial = None\<rparr>"

text \<open>
  The roster record of an account:
  \<open>studentsByEmail.get(email) || findStudentByExternalId(user, studentsByStudentId)\<close>.
\<close>

definition matchedStudent :: "(string \<rightharpoonup> Student) \<Rightarrow> (string \<rightharpoonup> Student) \<Rightarrow> GoogleUser \<Rightarrow> Student option" where
  "matchedStudent byEmail byId user =
     (case byEmail (toLowerCase (primaryEmail user)) of
        Some st \<Rightarrow> Some st
      | None \<Rightarrow> findStudentByExternalId user byId)"

fun statusName :: "StudentStatus \<Rightarrow> string" where
  "statusName active = ''active''"
| "statusName transferred = ''transferred''"
| "statusName graduated = ''graduated''"

text \<open>An absent path in a template literal is rendered as \<open>undefined\<close>.\<close>

definition pathText :: "string option \<Rightarrow> string" where
  "pathText v = (case v of None \<Rightarrow> ''undefined'' | Some x \<Rightarrow> x)"

text \<open>The body of the loop over the existing accounts: the actions it pushes for one account.\<close>

definition accountActions ::
  "string \<Rightarrow> Date \<Rightarrow> (string \<rightharpoonup> Student) \<Rightarrow> (string \<rightharpoonup> Student) \<Rightarrow> GoogleUser \<Rightarrow> SyncAction list" where
  "accountActions root now byEmail byId user =
     (case matchedStudent byEmail byId user of
        Some st \<Rightarrow>
          (let stat = getStudentStatus now st
           in if stat = active then
                (let targetOU = getStudentOUPath root now st
                 in if shouldMoveStudent root now st (orgUnitPath user)
                    then [\<lparr>type = move, student = st, currentUser = Some user,
                           currentDevice = None, targetOUPath = targetOU,
                           reason = ''Move from '' @ pathText (orgUnitPath user) @ '' to '' @ targetOU\<rparr>]
                    else [])
              else if \<not> truthyBool (suspended user)
                   then [\<lparr>type = deactivate, student = st, currentUser = Some user,
                          currentDevice = None, targetOUPath = orElse (orgUnitPath user) [],
                          reason = ''Student '' @ statusName stat\<rparr>]
                   else [])
      | None \<Rightarrow>
          if isActiveStudentOU root (orElse (orgUnitPath user) []) \<and> \<not> truthyBool (suspended user)
          then [\<lparr>type = deactivate, student = createPlaceholderStudent user,
                 currentUser = Some user, currentDevice = None,
                 targetOUPath = orElse (orgUnitPath user) [],
                 reason = ''Not found in enrollment data''\<rparr>]
          else [])"

fun accountPass ::
  "string \<Rightarrow> Date \<Rightarrow> (string \<rightharpoonup> Student) \<Rightarrow> (string \<rightharpoonup> Student) \<Rightarrow> GoogleUser list \<Rightarrow> SyncAction list" where
  "accountPass root now byEmail byId [] = []"
| "accountPass root now byEmail byId (user # rest) =
     accountActions root now byEmail byId user @ accountPass root now byEmail byId rest"

text \<open>\<open>processedEmails\<close>: the lower-cased primary address of every existing account.\<close>

definition processedEmails :: "GoogleUser list \<Rightarrow> string list" where
  "processedEmails existingUsers = map (\<lambda>user. toLowerCase (primaryEmail user)) existingUsers"

text \<open>The loop over the roster that pushes the create actions, and its condition.\<close>

definition needsAccount :: "Date \<Rightarrow> string list \<Rightarrow> Student \<Rightarrow> bool" where
  "needsAccount now processed st =
     (getStudentStatus now st = active
      \<and> (case email st of
            None \<Rightarrow> False
          | Some e \<Rightarrow> e \<noteq> [] \<and> toLowerCase e \<notin> set processed))"

fun rosterPass :: "string \<Rightarrow> Date \<Rightarrow> string list \<Rightarrow> Student list \<Rightarrow> SyncAction list" where
  "rosterPass root now processed [] = []"
| "rosterPass root now processed (st # rest) =
     (if needsAccount now processed st
      then [\<lparr>type = create, student = st, currentUser = None, currentDevice = None,
             targetOUPath = getStudentOUPath root now st, reason = ''New student''\<rparr>]
      else [])
     @ rosterPass root now processed rest"

text \<open>
  \<open>addDeviceSyncActions\<close> pushes onto the list it is given; the model returns the actions
  pushed, which the caller appends.
\<close>

definition deviceActions :: "string \<Rightarrow> Date \<Rightarrow> (string \<rightharpoonup> ChromeDevice) \<Rightarrow> Student \<Rightarrow> SyncAction list" where
  "deviceActions root now existingDevices st =
     (case deviceSerial st of
        None \<Rightarrow> []
      | Some serial \<Rightarrow>
          if serial = [] then []
          else (case existingDevices serial of
                  None \<Rightarrow> []
                | Some device \<Rightarrow>
                    if getStudentStatus now st \<noteq> active then []
                    else (let targetOU = getStudentOUPath root now st
                          in if deviceOrgUnitPath device \<noteq> Some targetOU
                             then [\<lparr>type = move_device, student = st, currentUser = None,
                                    currentDevice = Some device, targetOUPath = targetOU,
                                    reason = ''Move device from ''
                                      @ orElse (deviceOrgUnitPath device) ''unknown''
                                      @ '' to '' @ targetOU\<rparr>]
                             else [])))"

fun addDeviceSyncActions ::
  "string \<Rightarrow> Date \<Rightarrow> (string \<rightharpoonup> ChromeDevice) \<Rightarrow> Student list \<Rightarrow> SyncAction list" where
  "addDeviceSyncActions root now existingDevices [] = []"
| "addDeviceSyncActions root now existingDevices (st # rest) =
     deviceActions root now existingDevices st
     @ addDeviceSyncActions root now existingDevices rest"

definition determineActions ::
  "Config \<Rightarrow> string \<Rightarrow> Date \<Rightarrow> Student list \<Rightarrow> GoogleUser list \<Rightarrow> (string \<rightharpoonup> ChromeDevice)
   \<Rightarrow> SyncAction list" where
  "determineActions cfg root now students existingUsers existingDevices =
     (let actions =
            accountPass root now (studentsByEmail students) (studentsByStudentId students)
              existingUsers
            @ rosterPass root now (processedEmails existingUsers) students
            @ addDeviceSyncActions root now existingDevices students
      in if createOnly cfg then filter (\<lambda>a. type a = create) actions
         else if moveOnly cfg then filter (\<lambda>a. type a = move) actions
         else if deactivateOnly cfg then filter (\<lambda>a. type a = deactivate) actions
         else actions)"

text \<open>\<open>simulateActions\<close>, the plan of a dry run.\<close>

fun simulateActions :: "string \<Rightarrow> Date \<Rightarrow> Student list \<Rightarrow> SyncAction list" where
  "simulateActions root now [] = []"
| "simulateActions root now (st # rest) =
     (if getStudentStatus now st = active
      then \<lparr>type = create, student = st, currentUser = None, currentDevice = None,
            targetOUPath = getStudentOUPath root now st,
            reason = ''New student (simulated)''\<rparr>
           # (if truthyStr (deviceSerial st)
              then [\<lparr>type = move_device, student = st, currentUser = None,
                     currentDevice = None, targetOUPath = getStudentOUPath root now st,
                     reason = ''Move device '' @ orElse (deviceSerial st) []
                       @ '' to student OU (simulated)''\<rparr>]
              else [])
      else [\<lparr>type = deactivate, student = st, currentUser = None, currentDevice = None,
             targetOUPath = getStudentOUPath root now st,
             reason = ''Student '' @ statusName (getStudentStatus now st) @ '' (simulated)''\<rparr>])
     @ simulateActions root now rest"

section \<open>The executor (src/unnamed/part_003, class SyncEngine)\<close>

text \<open>
  The directory client and the random source are the environment of the engine. A call
  of the client either returns or throws; what it does to the directory is the client's
  business, so the environment is a state \<open>'w\<close> and two functions on it. A thrown value is
  an \<open>Error\<close> object with its message, or some other value.
\<close>

datatype Thrown = ErrorObject string | OtherValue

datatype ApiCall =
    CreateUser GoogleUser
  | MoveUserToOU string string
  | SuspendUser string
  | UpdateUser string "ExternalId list"
  | MoveChromeDeviceToOU string string

record 'w Environment =
  api :: "'w \<Rightarrow> ApiCall \<Rightarrow> Thrown option \<times> 'w"
  randomBelow :: "'w \<Rightarrow> nat \<Rightarrow> nat \<times> 'w"

text \<open>What a handler does: the value it throws, if any, the calls it made, the state it leaves.\<close>

type_synonym 'w Handled = "Thrown option \<times> ApiCall list \<times> 'w"

definition callApi :: "'w Environment \<Rightarrow> 'w \<Rightarrow> ApiCall \<Rightarrow> 'w Handled" where
  "callApi env w c = (case api env w c of (thrown, w1) \<Rightarrow> (thrown, [c], w1))"

subsection \<open>Passwords\<close>

definition getDefaultPasswordConfig :: "Config \<Rightarrow> PasswordConfig" where
  "getDefaultPasswordConfig cfg =
     \<lparr>pwType = prefix_studentid, prefix = Some (orElse (passwordPrefix cfg) ''lh00''),
      pwLength = None, includeUppercase = None, includeLowercase = None,
      includeNumbers = None, includeSymbols = None, customPattern = None\<rparr>"

text \<open>\<open>padStart(4, '0')\<close> after \<open>slice(-4)\<close> of the digits of the identifier.\<close>

definition generatePrefixStudentIdPassword :: "string \<Rightarrow> PasswordConfig \<Rightarrow> string" where
  "generatePrefixStudentIdPassword sid pc =
     (let numericPart = filter isDigit sid;
          last4 = drop (length numericPart - 4) numericPart;
          last4Digits = replicate (4 - length last4) CHR ''0'' @ last4
      in orElse (prefix pc) ''lh00'' @ last4Digits)"

definition buildCharacterSet :: "PasswordConfig \<Rightarrow> string" where
  "buildCharacterSet pc =
     (if includeUppercase pc \<noteq> Some False then ''ABCDEFGHIJKLMNOPQRSTUVWXYZ'' else [])
     @ (if includeLowercase pc \<noteq> Some False then ''abcdefghijklmnopqrstuvwxyz'' else [])
     @ (if includeNumbers pc \<noteq> Some False then ''0123456789'' else [])
     @ (if truthyBool (includeSymbols pc) then ''!@#$%^&*()_+-=[]{}|;:,.<>?'' else [])"

text \<open>
  The loop of \<open>generateRandomPassword\<close>. \<open>Math.floor(Math.random() * n)\<close> is below \<open>n\<close>;
  the answer of the environment is reduced into that range.
\<close>

fun drawCharacters :: "'w Environment \<Rightarrow> string \<Rightarrow> nat \<Rightarrow> 'w \<Rightarrow> string \<times> 'w" where
  "drawCharacters env chars 0 w = ([], w)"
| "drawCharacters env chars (Suc n) w =
     (case randomBelow env w (length chars) of
        (k, w1) \<Rightarrow>
          (case drawCharacters env chars n w1 of
             (rest, w2) \<Rightarrow> (chars ! (k mod length chars) # rest, w2)))"

definition generateRandomPassword :: "'w Environment \<Rightarrow> 'w \<Rightarrow> PasswordConfig \<Rightarrow> (Thrown + string) \<times> 'w" where
  "generateRandomPassword env w pc =
     (let len = (case pwLength pc of None \<Rightarrow> 12 | Some n \<Rightarrow> if n = 0 then 12 else n);
          chars = buildCharacterSet pc
      in if length chars = 0
         then (Inl (ErrorObject ''No character sets enabled for random password generation''), w)
         else (case drawCharacters env chars (nat len) w of (pw, w1) \<Rightarrow> (Inr pw, w1)))"

text \<open>
  \<open>String.prototype.replace\<close> with a string pattern replaces the first occurrence. The
  replacement text is taken literally.
\<close>

fun replaceFirst :: "string \<Rightarrow> string \<Rightarrow> string \<Rightarrow> string" where
  "replaceFirst pat rep [] = (if pat = [] then rep else [])"
| "replaceFirst pat rep (c # cs) =
     (if startsWith (c # cs) pat then rep @ drop (length pat) (c # cs)
      else c # replaceFirst pat rep cs)"

definition generateCustomPatternPassword :: "Student \<Rightarrow> PasswordConfig \<Rightarrow> Thrown + string" where
  "generateCustomPatternPassword st pc =
     (if \<not> truthyStr (customPattern pc)
      then Inl (ErrorObject ''Custom pattern not provided for custom_function password type'')
      else Inr
        (replaceFirst ''{lastInitial}'' (toLowerCase (take 1 (lastName st)))
        (replaceFirst ''{firstInitial}'' (toLowerCase (take 1 (firstName st)))
        (replaceFirst ''{graduationYear}'' (toString (graduationYear st))
        (replaceFirst ''{studentId}'' (studentId st)
        (replaceFirst ''{lastName}'' (toLowerCase (lastName st))
        (replaceFirst ''{firstName}'' (toLowerCase (firstName st))
           (orElse (customPattern pc) []))))))))"

definition generatePassword :: "Config \<Rightarrow> 'w Environment \<Rightarrow> 'w \<Rightarrow> Student \<Rightarrow> (Thrown + string) \<times> 'w" where
  "generatePassword cfg env w st =
     (let pc = (case passwordConfig cfg of None \<Rightarrow> getDefaultPasswordConfig cfg | Some c \<Rightarrow> c)
      in case pwType pc of
           prefix_studentid \<Rightarrow> (Inr (generatePrefixStudentIdPassword (studentId st) pc), w)
         | random \<Rightarrow> generateRandomPassword env w pc
         | custom_function \<Rightarrow> (generateCustomPatternPassword st pc, w)
         | other_type \<Rightarrow>
             (Inr (generatePrefixStudentIdPassword (studentId st)
                     (getDefaultPasswordConfig cfg)), w))"

subsection \<open>The five handlers\<close>

text \<open>
  \<open>createUser\<close> first completes the student record of its action with a derived address
  when it has none; the action of the result is that same object. Two actions that share
  one student object are modelled as two values.
\<close>

definition ensureEmail :: "Config \<Rightarrow> SyncAction \<Rightarrow> SyncAction" where
  "ensureEmail cfg a =
     (if truthyStr (email (student a)) then a
      else a\<lparr>student := (student a)\<lparr>email :=
             Some (generateEmailAddress_call (student a) (googleDomain cfg) (emailConfig cfg))\<rparr>\<rparr>)"

definition createUser :: "Config \<Rightarrow> 'w Environment \<Rightarrow> Date \<Rightarrow> 'w \<Rightarrow> SyncAction \<Rightarrow> 'w Handled" where
  "createUser cfg env now w a =
     (let st = student (ensureEmail cfg a)
      in case generatePassword cfg env w st of
           (Inl thrown, w1) \<Rightarrow> (Some thrown, [], w1)
         | (Inr pw, w1) \<Rightarrow>
             callApi env w1
               (CreateUser
                  \<lparr>userId = None,
                   primaryEmail = orElse (email st) [],
                   givenName = firstName st,
                   familyName = lastName st,
                   suspended = None,
                   orgUnitPath = Some (targetOUPath a),
                   externalIds = Some [\<lparr>idValue = studentId st, idType = ''custom'',
                                       customType = Some ''student_id''\<rparr>],
                   password = Some pw,
                   changePasswordAtNextLogin = Some True,
                   customSchemas = Some
                     \<lparr>graduation_year = toString (graduationYear st),
                      enrollment_date = orElse (enrollmentDate st) (isoDay now),
                      parent_email = orElse (parentEmail st) []\<rparr>\<rparr>))"

definition moveUser :: "'w Environment \<Rightarrow> 'w \<Rightarrow> SyncAction \<Rightarrow> 'w Handled" where
  "moveUser env w a =
     (case currentUser a of
        None \<Rightarrow> (Some (ErrorObject ''Current user not provided for move action''), [], w)
      | Some user \<Rightarrow> callApi env w (MoveUserToOU (primaryEmail user) (targetOUPath a)))"

definition deactivateUser :: "'w Environment \<Rightarrow> 'w \<Rightarrow> SyncAction \<Rightarrow> 'w Handled" where
  "deactivateUser env w a =
     (case currentUser a of
        None \<Rightarrow> (Some (ErrorObject ''Current user not provided for deactivate action''), [], w)
      | Some user \<Rightarrow> callApi env w (SuspendUser (primaryEmail user)))"

definition updateUser :: "'w Environment \<Rightarrow> 'w \<Rightarrow> SyncAction \<Rightarrow> 'w Handled" where
  "updateUser env w a =
     (case currentUser a of
        None \<Rightarrow> (Some (ErrorObject ''Current user not provided for update action''), [], w)
      | Some user \<Rightarrow>
          callApi env w
            (UpdateUser (primaryEmail user)
               [\<lparr>idValue = studentId (student a), idType = ''custom'',
                 customType = Some ''student_id''\<rparr>]))"

definition moveDevice :: "'w Environment \<Rightarrow> 'w \<Rightarrow> SyncAction \<Rightarrow> 'w Handled" where
  "moveDevice env w a =
     (case currentDevice a of
        None \<Rightarrow>
          (Some (ErrorObject ''Current device or device ID not provided for move device action''),
           [], w)
      | Some device \<Rightarrow>
          if \<not> truthyStr (deviceId device)
          then (Some (ErrorObject
                        ''Current device or device ID not provided for move device action''),
                [], w)
          else callApi env w (MoveChromeDeviceToOU (orElse (deviceId device) []) (targetOUPath a)))"

subsection \<open>\<open>executeAction\<close> and \<open>executeActions\<close>\<close>

definition runHandler :: "Config \<Rightarrow> 'w Environment \<Rightarrow> Date \<Rightarrow> 'w \<Rightarrow> SyncAction \<Rightarrow> 'w Handled" where
  "runHandler cfg env now w a =
     (case type a of
        create \<Rightarrow> createUser cfg env now w a
      | move \<Rightarrow> moveUser env w a
      | deactivate \<Rightarrow> deactivateUser env w a
      | update \<Rightarrow> updateUser env w a
      | move_device \<Rightarrow> moveDevice env w a)"

text \<open>The action object as it is when the handler has run.\<close>

definition actionAfter :: "Config \<Rightarrow> SyncAction \<Rightarrow> SyncAction" where
  "actionAfter cfg a = (if type a = create then ensureEmail cfg a else a)"

definition thrownMessage :: "Thrown \<Rightarrow> string" where
  "thrownMessage t = (case t of ErrorObject m \<Rightarrow> m | OtherValue \<Rightarrow> ''Unknown error'')"

text \<open>\<open>executeAction\<close>: the \<open>try\<close> block runs the handler, the \<open>catch\<close> block turns what was thrown into a result.\<close>

definition executeAction ::
  "Config \<Rightarrow> 'w Environment \<Rightarrow> Date \<Rightarrow> 'w \<Rightarrow> SyncAction \<Rightarrow> SyncResult \<times> ApiCall list \<times> 'w" where
  "executeAction cfg env now w a =
     (case runHandler cfg env now w a of
        (None, cs, w1) \<Rightarrow>
          (\<lparr>success = True, action = actionAfter cfg a, error = None\<rparr>, cs, w1)
      | (Some thrown, cs, w1) \<Rightarrow>
          (\<lparr>success = False, action = actionAfter cfg a, error = Some (thrownMessage thrown)\<rparr>,
           cs, w1))"

text \<open>
  One batch, \<open>Promise.all(batch.map(executeAction))\<close>: the results are in the order of the
  batch. The handlers of a batch are taken to reach the client in that order.
\<close>

fun runBatch ::
  "Config \<Rightarrow> 'w Environment \<Rightarrow> Date \<Rightarrow> 'w \<Rightarrow> SyncAction list \<Rightarrow> SyncResult list \<times> ApiCall list \<times> 'w" where
  "runBatch cfg env now w [] = ([], [], w)"
| "runBatch cfg env now w (a # rest) =
     (case executeAction cfg env now w a of
        (r, cs, w1) \<Rightarrow>
          (case runBatch cfg env now w1 rest of
             (rs, cs', w2) \<Rightarrow> (r # rs, cs @ cs', w2)))"

text \<open>
  The loop of \<open>executeActions\<close>, from index \<open>i\<close> with the results and calls so far. With a
  batch size of zero the index never advances and the loop does not end: the value
  \<open>None\<close>.
\<close>

partial_function (option) executeActionsFrom ::
  "Config \<Rightarrow> 'w Environment \<Rightarrow> Date \<Rightarrow> SyncAction list \<Rightarrow> nat \<Rightarrow> nat
   \<Rightarrow> SyncResult list \<times> ApiCall list \<times> 'w \<Rightarrow> (SyncResult list \<times> ApiCall list \<times> 'w) option" where
  "executeActionsFrom cfg env now actions batchSize i acc =
     (if i < length actions
      then executeActionsFrom cfg env now actions batchSize (i + batchSize)
             (case acc of
                (rs, cs, w) \<Rightarrow>
                  (case runBatch cfg env now w (take batchSize (drop i actions)) of
                     (batchResults, batchCalls, w1) \<Rightarrow> (rs @ batchResults, cs @ batchCalls, w1)))
      else Some acc)"

declare executeActionsFrom.simps [code]

definition executeActions ::
  "Config \<Rightarrow> 'w Environment \<Rightarrow> Date \<Rightarrow> 'w \<Rightarrow> SyncAction list
   \<Rightarrow> (SyncResult list \<times> ApiCall list \<times> 'w) option" where
  "executeActions cfg env now w actions =
     executeActionsFrom cfg env now actions (maxConcurrentRequests cfg) 0 ([], [], w)"

subsection \<open>\<open>sync\<close>\<close>

text \<open>
  The console of \<open>confirmBulkDeactivation\<close>: whether standard input is a terminal, and
  what one read returns (\<open>None\<close> at end of input).
\<close>

record Console =
  stdinIsTerminal :: bool
  stdinRead :: "string option"

definition trim :: "string \<Rightarrow> string" where
  "trim s = rev (dropWhile isSpace (rev (dropWhile isSpace s)))"

definition confirmBulkDeactivation :: "Console \<Rightarrow> nat \<Rightarrow> bool" where
  "confirmBulkDeactivation console n =
     (if stdinIsTerminal console
      then (case stdinRead console of
              None \<Rightarrow> False
            | Some answer \<Rightarrow> toLowerCase (trim answer) = ''yes'')
      else False)"

definition emptySummary :: SyncSummary where
  "emptySummary =
     \<lparr>totalProcessed = 0, created = 0, moved = 0, deactivated = 0, updated = 0, errors = 0,
      results = []\<rparr>"

text \<open>The loop over the results that fills the summary.\<close>

definition countResult :: "SyncSummary \<Rightarrow> SyncResult \<Rightarrow> SyncSummary" where
  "countResult summary r =
     (let s1 = summary\<lparr>results := results summary @ [r],
                       totalProcessed := totalProcessed summary + 1\<rparr>
      in if success r then
           (case type (action r) of
              create \<Rightarrow> s1\<lparr>created := created s1 + 1\<rparr>
            | move \<Rightarrow> s1\<lparr>moved := moved s1 + 1\<rparr>
            | deactivate \<Rightarrow> s1\<lparr>deactivated := deactivated s1 + 1\<rparr>
            | update \<Rightarrow> s1\<lparr>updated := updated s1 + 1\<rparr>
            | move_device \<Rightarrow> s1)
         else s1\<lparr>errors := errors s1 + 1\<rparr>)"

text \<open>
  A run of \<open>sync\<close>: what it returns or throws, the confirmations it asked for, the calls
  the handlers made, and the state of the environment at the end.
\<close>

record 'w SyncRun =
  outcome :: "Thrown + SyncSummary"
  confirmationsRequested :: "nat list"
  apiCalls :: "ApiCall list"
  finalState :: 'w

text \<open>
  The end of \<open>sync\<close>, from \<open>executeActions\<close> on: the plan is executed and the results are
  counted. \<open>asked\<close> holds the confirmations requested before. \<open>None\<close>: the run does not
  end.
\<close>

definition executeAndSummarise ::
  "Config \<Rightarrow> 'w Environment \<Rightarrow> Date \<Rightarrow> 'w \<Rightarrow> nat list \<Rightarrow> SyncAction list \<Rightarrow> 'w SyncRun option" where
  "executeAndSummarise cfg env now w asked actions =
     (case executeActions cfg env now w actions of
        None \<Rightarrow> None
      | Some (rs, cs, w1) \<Rightarrow>
          Some \<lparr>outcome = Inr (foldl countResult emptySummary rs),
                confirmationsRequested = asked, apiCalls = cs, finalState = w1\<rparr>)"

text \<open>
  \<open>sync\<close>. The three awaited steps before the plan (the two fetches and
  \<open>ensureRequiredOUs\<close>) are the parameter \<open>fetched\<close>: what they threw, or the two snapshots
  they gave, \<open>w\<close> being the state they left.
\<close>

definition sync ::
  "Config \<Rightarrow> string \<Rightarrow> 'w Environment \<Rightarrow> Date \<Rightarrow> Console
   \<Rightarrow> Thrown + GoogleUser list \<times> (string \<rightharpoonup> ChromeDevice) \<Rightarrow> 'w \<Rightarrow> Student list
   \<Rightarrow> 'w SyncRun option" where
  "sync cfg root env now console fetched w students =
     (if dryRun cfg
      then Some \<lparr>outcome = Inr (emptySummary\<lparr>totalProcessed :=
                                  length (simulateActions root now students)\<rparr>),
                 confirmationsRequested = [], apiCalls = [], finalState = w\<rparr>
      else
        (case fetched of
           Inl thrown \<Rightarrow>
             Some \<lparr>outcome = Inl thrown, confirmationsRequested = [], apiCalls = [],
                   finalState = w\<rparr>
         | Inr (existingUsers, existingDevices) \<Rightarrow>
             (let actions = determineActions cfg root now students existingUsers existingDevices;
                  deactivateCount = length (filter (\<lambda>a. type a = deactivate) actions)
              in if deactivateCount > requireConfirmationThreshold cfg
                 then
                   (if \<not> confirmBulkDeactivation console deactivateCount
                    then Some \<lparr>outcome = Inr emptySummary,
                               confirmationsRequested = [deactivateCount],
                               apiCalls = [], finalState = w\<rparr>
                    else executeAndSummarise cfg env now w [deactivateCount] actions)
                 else executeAndSummarise cfg env now w [] actions)))"

section \<open>The directory after a plan has been carried out\<close>

text \<open>
  The snapshot that reflects a plan, as the idempotence property describes it: each
  created account exists at its target path, unsuspended, with the student's address and
  the \<open>student_id\<close> external identifier; each moved account or device is at its target
  path; each deactivated account is suspended; everything else is as it was. Where a
  plan holds several moves of one account or of one device, the last one is the one in
  effect.
\<close>

definition createdAccount :: "SyncAction \<Rightarrow> GoogleUser" where
  "createdAccount a =
     \<lparr>userId = None,
      primaryEmail = orElse (email (student a)) [],
      givenName = firstName (student a),
      familyName = lastName (student a),
      suspended = Some False,
      orgUnitPath = Some (targetOUPath a),
      externalIds = Some [\<lparr>idValue = studentId (student a), idType = ''custom'',
                          customType = Some ''student_id''\<rparr>],
      password = None,
      changePasswordAtNextLogin = Some True,
      customSchemas = None\<rparr>"

definition applyToAccount :: "SyncAction list \<Rightarrow> GoogleUser \<Rightarrow> GoogleUser" where
  "applyToAccount plan user =
     (let moves = filter (\<lambda>a. type a = move \<and> currentUser a = Some user) plan;
          deactivations = filter (\<lambda>a. type a = deactivate \<and> currentUser a = Some user) plan;
          user1 = (if moves = [] then user
                   else user\<lparr>orgUnitPath := Some (targetOUPath (last moves))\<rparr>)
      in if deactivations = [] then user1 else user1\<lparr>suspended := Some True\<rparr>)"

definition accountsAfterApplyingPlan :: "SyncAction list \<Rightarrow> GoogleUser list \<Rightarrow> GoogleUser list" where
  "accountsAfterApplyingPlan plan users =
     map (applyToAccount plan) users
     @ map createdAccount (filter (\<lambda>a. type a = create) plan)"

definition devicesAfterApplyingPlan ::
  "SyncAction list \<Rightarrow> (string \<rightharpoonup> ChromeDevice) \<Rightarrow> (string \<rightharpoonup> ChromeDevice)" where
  "devicesAfterApplyingPlan plan devices =
     (\<lambda>serial.
        case devices serial of
          None \<Rightarrow> None
        | Some device \<Rightarrow>
            (let moves = filter (\<lambda>a. type a = move_device
                                      \<and> deviceSerial (student a) = Some serial) plan
             in if moves = [] then Some device
                else Some (device\<lparr>deviceOrgUnitPath := Some (targetOUPath (last moves))\<rparr>)))"

section \<open>Notions used by the properties of the planner\<close>

text \<open>The action kinds that the mode filter at the end of \<open>determineActions\<close> lets through.\<close>

definition modeKeeps :: "Config \<Rightarrow> ActionType \<Rightarrow> bool" where
  "modeKeeps cfg t =
     (if createOnly cfg then t = create
      else if moveOnly cfg then t = move
      else if deactivateOnly cfg then t = deactivate
      else True)"

text \<open>
  The key under which a roster record enters the index by address, when it has one; a
  roster whose records have pairwise different keys; a roster whose records have
  pairwise different device serials.
\<close>

definition emailKey :: "Student \<Rightarrow> string option" where
  "emailKey st =
     (case email st of None \<Rightarrow> None | Some e \<Rightarrow> if e = [] then None else Some (toLowerCase e))"

definition uniqueEmails :: "Student list \<Rightarrow> bool" where
  "uniqueEmails students =
     (\<forall>s \<in> set students. \<forall>t \<in> set students.
        emailKey s \<noteq> None \<and> emailKey s = emailKey t \<longrightarrow> s = t)"

definition uniqueSerials :: "Student list \<Rightarrow> bool" where
  "uniqueSerials students =
     (\<forall>s \<in> set students. \<forall>t \<in> set students.
        truthyStr (deviceSerial s) \<and> deviceSerial s = deviceSerial t \<longrightarrow> s = t)"

text \<open>
  The random-password strategy with the three default classes switched off and the
  symbols not switched on; the calls that create an account.
\<close>

definition allCharacterClassesDisabled :: "Config \<Rightarrow> bool" where
  "allCharacterClassesDisabled cfg =
     (case passwordConfig cfg of
        None \<Rightarrow> False
      | Some pc \<Rightarrow>
          pwType pc = random \<and> includeUppercase pc = Some False
          \<and> includeLowercase pc = Some False \<and> includeNumbers pc = Some False
          \<and> \<not> truthyBool (includeSymbols pc))"

definition isCreateUser :: "ApiCall \<Rightarrow> bool" where
  "isCreateUser c = (case c of CreateUser u \<Rightarrow> True | _ \<Rightarrow> False)"

section \<open>Sample data\<close>

text \<open>The first two are the student and the date of the test suite (src/tests).\<close>

definition johnDoe :: Student where
  "johnDoe = \<lparr>studentId = ''STU001'', firstName = ''John'', lastName = ''Doe'', grade = ''9'',
     email = None, graduationYear = 2028, enrollmentDate = None, parentEmail = None,
     status = None, deviceSerial = None\<rparr>"

definition testDate :: Date where
  "testDate = \<lparr>fullYear = 2024, monthNumber = 9, isoDay = ''2024-09-01''\<rparr>"

definition plainConfig :: Config where
  "plainConfig = \<lparr>googleDomain = ''school.edu'', dryRun = False, maxConcurrentRequests = 1,
     requireConfirmationThreshold = 5, createOnly = False, moveOnly = False,
     deactivateOnly = False, passwordConfig = None, emailConfig = None,
     passwordPrefix = Some ''lh00''\<rparr>"

definition createOnlyConfig :: Config where
  "createOnlyConfig = plainConfig\<lparr>createOnly := True\<rparr>"

definition janeActive :: Student where
  "janeActive = \<lparr>studentId = ''STU002'', firstName = ''Jane'', lastName = ''Smith'', grade = ''6'',
     email = Some ''shared@school.edu'', graduationYear = 2031, enrollmentDate = None,
     parentEmail = None, status = None, deviceSerial = None\<rparr>"

definition bobGraduated :: Student where
  "bobGraduated = \<lparr>studentId = ''STU003'', firstName = ''Bob'', lastName = ''Johnson'', grade = ''12'',
     email = Some ''shared@school.edu'', graduationYear = 2025, enrollmentDate = None,
     parentEmail = None, status = Some graduated, deviceSerial = None\<rparr>"

definition bobAccount :: GoogleUser where
  "bobAccount = \<lparr>userId = Some ''u3'', primaryEmail = ''shared@school.edu'', givenName = ''Bob'',
     familyName = ''Johnson'', suspended = None, orgUnitPath = Some ''/org/student/high/2025/bob.johnson'',
     externalIds = None, password = None, changePasswordAtNextLogin = None, customSchemas = None\<rparr>"

definition annWithDevice :: Student where
  "annWithDevice = \<lparr>studentId = ''STU004'', firstName = ''Ann'', lastName = ''Lee'', grade = ''9'',
     email = Some ''ann.lee2028@school.edu'', graduationYear = 2028, enrollmentDate = None,
     parentEmail = None, status = None, deviceSerial = Some ''CHR001''\<rparr>"

definition benWithDevice :: Student where
  "benWithDevice = \<lparr>studentId = ''STU005'', firstName = ''Ben'', lastName = ''Ray'', grade = ''9'',
     email = None, graduationYear = 2028, enrollmentDate = None,
     parentEmail = None, status = None, deviceSerial = Some ''CHR001''\<rparr>"

definition chromebook :: ChromeDevice where
  "chromebook = \<lparr>deviceId = Some ''d1'', serialNumber = Some ''CHR001'', deviceOrgUnitPath = None\<rparr>"

definition annAccount :: GoogleUser where
  "annAccount = \<lparr>userId = Some ''u4'', primaryEmail = ''Ann.Lee2028@school.edu'', givenName = ''Ann'',
     familyName = ''Lee'', suspended = None, orgUnitPath = Some ''/org/student/middle/2028/ann.lee'',
     externalIds = None, password = None, changePasswordAtNextLogin = None, customSchemas = None\<rparr>"

definition quietEnvironment :: "unit Environment" where
  "quietEnvironment = \<lparr>api = (\<lambda>w c. (None, w)), randomBelow = (\<lambda>w n. (0, w))\<rparr>"

definition noClassesConfig :: Config where
  "noClassesConfig = plainConfig\<lparr>passwordConfig := Some
     \<lparr>pwType = random, prefix = None, pwLength = Some 8, includeUppercase = Some False,
      includeLowercase = Some False, includeNumbers = Some False, includeSymbols = Some False,
      customPattern = None\<rparr>\<rparr>"

definition pipeConsole :: Console where
  "pipeConsole = \<lparr>stdinIsTerminal = False, stdinRead = None\<rparr>"

definition janeNew :: Student where
  "janeNew = janeActive\<lparr>email := Some ''jane.smith2031@school.edu''\<rparr>"

definition strictConfig :: Config where
  "strictConfig = plainConfig\<lparr>requireConfirmationThreshold := 0\<rparr>"

definition terminalYes :: Console where
  "terminalYes = \<lparr>stdinIsTerminal = True, stdinRead = Some (''Yes'' @ [CHR 0x0A])\<rparr>"

definition moveWithoutUser :: SyncAction where
  "moveWithoutUser = \<lparr>type = move, student = annWithDevice, currentUser = None,
     currentDevice = None, targetOUPath = ''/org/student/high/2028/ann.lee'',
     reason = ''Move''\<rparr>"

definition suspendBob :: SyncAction where
  "suspendBob = \<lparr>type = deactivate, student = bobGraduated, currentUser = Some bobAccount,
     currentDevice = None, targetOUPath = ''/org/student/high/2025/bob.johnson'',
     reason = ''Student graduated''\<rparr>"

definition createJane :: SyncAction where
  "createJane = \<lparr>type = create, student = janeNew, currentUser = None,
     currentDevice = None, targetOUPath = ''/org/student/middle/2031/jane.smith'',
     reason = ''New student''\<rparr>"

section \<open>School levels\<close>

lemma currentSchoolYear_eq:
  "currentSchoolYear now = (if monthNumber now < 6 then fullYear now - 1 else fullYear now)"
  by (simp add: currentSchoolYear_def)

text \<open>
  Claim C4. With the current school year being the calendar year minus one before June
  and the calendar year from June on, a graduation year \<open>Y\<close> is classified high exactly
  when \<open>Y - currentSchoolYear \<le> 4\<close>, middle exactly when it lies between 5 and 7, and
  elementary exactly when it is 8 or more; the offsets 4, 5 and 8 are high, middle and
  elementary; and a pupil with fewer years left is never at a lower level than one with
  more years left.
\<close>

theorem school_level_classification:
  "currentSchoolYear now = (if monthNumber now < 6 then fullYear now - 1 else fullYear now)
   \<and> (getSchoolLevelFromGradYear now Y = high) = (Y - currentSchoolYear now \<le> 4)
   \<and> (getSchoolLevelFromGradYear now Y = middle)
       = (5 \<le> Y - currentSchoolYear now \<and> Y - currentSchoolYear now \<le> 7)
   \<and> (getSchoolLevelFromGradYear now Y = elementary) = (8 \<le> Y - currentSchoolYear now)
   \<and> getSchoolLevelFromGradYear now (currentSchoolYear now + 4) = high
   \<and> getSchoolLevelFromGradYear now (currentSchoolYear now + 5) = middle
   \<and> getSchoolLevelFromGradYear now (currentSchoolYear now + 8) = elementary
   \<and> (\<forall>Y1 Y2. Y1 - currentSchoolYear now < Y2 - currentSchoolYear now \<longrightarrow>
         levelRank (getSchoolLevelFromGradYear now Y2)
           \<le> levelRank (getSchoolLevelFromGradYear now Y1))"
  by (auto simp add: currentSchoolYear_eq getSchoolLevelFromGradYear_def Let_def)

theorem school_level_classification_witness:
  "levelRank (getSchoolLevelFromGradYear
       \<lparr>fullYear = 2024, monthNumber = 9, isoDay = ''2024-09-01''\<rparr> 2031)
     \<le> levelRank (getSchoolLevelFromGradYear
       \<lparr>fullYear = 2024, monthNumber = 9, isoDay = ''2024-09-01''\<rparr> 2028)
   \<and> getSchoolLevelFromGradYear
       \<lparr>fullYear = 2024, monthNumber = 9, isoDay = ''2024-09-01''\<rparr> 2031 = middle
   \<and> getSchoolLevelFromGradYear
       \<lparr>fullYear = 2024, monthNumber = 9, isoDay = ''2024-09-01''\<rparr> 2028 = high"
  using school_level_classification
    [of "\<lparr>fullYear = 2024, monthNumber = 9, isoDay = ''2024-09-01''\<rparr>" 2028]
  by (simp add: currentSchoolYear_eq getSchoolLevelFromGradYear_def)

section \<open>Paths\<close>

lemma showNat_small: "n < 10 \<Longrightarrow> showNat n = [char_of (48 + n)]"
  by (subst showNat.simps) simp

lemma showNat_large: "\<not> n < 10 \<Longrightarrow> showNat n = showNat (n div 10) @ [char_of (48 + n mod 10)]"
  by (subst showNat.simps) simp

lemma split_no_sep: "sep \<notin> set s \<Longrightarrow> split sep s = [s]"
  by (induction s) auto

lemma split_append: "sep \<notin> set s \<Longrightarrow> split sep (s @ sep # rest) = s # split sep rest"
  by (induction s) auto

lemma showNat_nonempty: "showNat n \<noteq> []"
  by (cases "n < 10") (simp_all add: showNat_small showNat_large)

lemma isDigit_char_of: "d < 10 \<Longrightarrow> isDigit (char_of (48 + d :: nat))"
  by (simp add: isDigit_def)

lemma digitValue_char_of: "d < 10 \<Longrightarrow> digitValue (char_of (48 + d :: nat)) = int d"
  by (simp add: digitValue_def)

lemma showNat_digits: "c \<in> set (showNat n) \<Longrightarrow> isDigit c"
proof (induction n arbitrary: c rule: showNat.induct)
  case (1 n)
  show ?case
  proof (cases "n < 10")
    case True
    with "1.prems" show ?thesis by (simp add: showNat_small isDigit_char_of)
  next
    case False
    with "1.prems" have "c \<in> set (showNat (n div 10)) \<or> c = char_of (48 + n mod 10)"
      by (auto simp add: showNat_large)
    then show ?thesis
    proof
      assume "c \<in> set (showNat (n div 10))"
      with False "1.IH" show ?thesis by simp
    next
      assume "c = char_of (48 + n mod 10)"
      then show ?thesis by (simp add: isDigit_char_of)
    qed
  qed
qed

lemma showNat_value: "foldl (\<lambda>acc c. acc * 10 + digitValue c) 0 (showNat n) = int n"
proof (induction n rule: showNat.induct)
  case (1 n)
  show ?case
  proof (cases "n < 10")
    case True
    then show ?thesis by (simp add: showNat_small digitValue_char_of)
  next
    case False
    then have "foldl (\<lambda>acc c. acc * 10 + digitValue c) 0 (showNat n)
          = int (n div 10) * 10 + digitValue (char_of (48 + n mod 10))"
      using "1.IH" by (simp add: showNat_large)
    also have "digitValue (char_of (48 + n mod 10)) = int (n mod 10)"
      by (simp add: digitValue_char_of)
    also have "int (n div 10) * 10 + int (n mod 10) = int n"
      by presburger
    finally show ?thesis .
  qed
qed

lemma readDigits_showNat: "readDigits (showNat n) = Some (int n)"
proof -
  have tw: "takeWhile isDigit (showNat n) = showNat n"
    by (simp add: showNat_digits)
  show ?thesis
    unfolding readDigits_def Let_def tw
    by (simp add: showNat_nonempty showNat_value)
qed

lemma isDigit_not_space: "isDigit c \<Longrightarrow> \<not> isSpace c"
  by (simp add: isDigit_def isSpace_def)

lemma isDigit_not_sign: "isDigit c \<Longrightarrow> c \<noteq> CHR ''-'' \<and> c \<noteq> CHR ''+''"
  by (auto simp add: isDigit_def)

lemma parseInt_showNat: "parseInt (showNat n) = Some (int n)"
proof -
  obtain c cs where cs: "showNat n = c # cs"
    using showNat_nonempty by (cases "showNat n") auto
  then have d: "isDigit c" using showNat_digits [of c n] by simp
  have "dropWhile isSpace (showNat n) = c # cs"
    using cs d by (simp add: isDigit_not_space)
  then show ?thesis
    using d isDigit_not_sign [OF d] readDigits_showNat [of n] cs
    by (simp add: parseInt_def)
qed

lemma parseInt_toString: "parseInt (toString i) = Some i"
proof (cases "i < 0")
  case True
  have "\<not> isSpace CHR ''-''" by (simp add: isSpace_def)
  then show ?thesis
    using True readDigits_showNat [of "nat (- i)"]
    by (simp add: parseInt_def toString_def)
next
  case False
  then show ?thesis
    using parseInt_showNat [of "nat i"] by (simp add: toString_def)
qed

lemma slash_not_digit: "isDigit c \<Longrightarrow> c \<noteq> CHR ''/''"
  by (auto simp add: isDigit_def)

lemma toString_no_slash: "CHR ''/'' \<notin> set (toString i)"
  using showNat_digits slash_not_digit by (auto simp add: toString_def)

lemma toString_nonempty: "toString i \<noteq> []"
  by (simp add: toString_def showNat_nonempty)

lemma levelName_no_slash: "CHR ''/'' \<notin> set (levelName l)"
  by (cases l) simp_all

lemma levelName_valid: "isValidSchoolLevel (levelName l) \<and> asSchoolLevel (levelName l) = l \<and> levelName l \<noteq> []"
  by (cases l) (simp_all add: isValidSchoolLevel_def asSchoolLevel_def)

lemma ouName_no_slash: "CHR ''/'' \<notin> set (generateStudentOUName s)"
  by (auto simp add: generateStudentOUName_def Let_def isLowerAZ_def isDigit_def)

lemma ouName_nonempty: "generateStudentOUName s \<noteq> []"
  by (simp add: generateStudentOUName_def Let_def)

lemma parts_of_path:
  assumes "CHR ''/'' \<notin> set a" "CHR ''/'' \<notin> set b" "CHR ''/'' \<notin> set c"
    and "a \<noteq> []" "b \<noteq> []" "c \<noteq> []"
  shows "filter (\<lambda>p. p \<noteq> []) (split CHR ''/'' (''/'' @ a @ ''/'' @ b @ ''/'' @ c)) = [a, b, c]"
proof -
  have "split CHR ''/'' (''/'' @ a @ ''/'' @ b @ ''/'' @ c)
        = [] # split CHR ''/'' (a @ CHR ''/'' # (b @ CHR ''/'' # c))"
    by simp
  also have "\<dots> = [] # a # split CHR ''/'' (b @ CHR ''/'' # c)"
    using split_append [OF assms(1), of "b @ CHR ''/'' # c"] by simp
  also have "\<dots> = [] # a # b # split CHR ''/'' c"
    using split_append [OF assms(2), of c] by simp
  also have "\<dots> = [[], a, b, c]"
    using split_no_sep [OF assms(3)] by simp
  finally show ?thesis using assms by simp
qed

text \<open>
  Claim C5. For every student record and every configured root, parsing the derived
  organisational path gives back the school level, the graduation year and the leaf
  segment (the normalised first.last name) the path was built from; and a path that does
  not start with the configured root parses to the empty result.
\<close>

theorem path_round_trip:
  "parseOUPath root (getStudentOUPath root now s)
     = \<lparr>parsedSchoolLevel = Some (getSchoolLevelFromGradYear now (graduationYear s)),
        parsedGraduationYear = Some (graduationYear s),
        parsedStudentId = Some (generateStudentOUName s)\<rparr>
   \<and> (\<forall>p. \<not> startsWith p root \<longrightarrow> parseOUPath root p = emptyParsedOUPath)"
proof -
  let ?l = "levelName (getSchoolLevelFromGradYear now (graduationYear s))"
  let ?y = "toString (graduationYear s)"
  let ?n = "generateStudentOUName s"
  have path: "getStudentOUPath root now s = root @ (''/'' @ ?l @ ''/'' @ ?y @ ''/'' @ ?n)"
    by (simp add: getStudentOUPath_def Let_def)
  have sw: "startsWith (getStudentOUPath root now s) root"
    by (simp add: path startsWith_def)
  have rel: "substring (getStudentOUPath root now s) (length root) = ''/'' @ ?l @ ''/'' @ ?y @ ''/'' @ ?n"
    by (simp add: path substring_def)
  have parts: "filter (\<lambda>p. p \<noteq> []) (split CHR ''/'' (''/'' @ ?l @ ''/'' @ ?y @ ''/'' @ ?n)) = [?l, ?y, ?n]"
    by (rule parts_of_path)
       (simp_all add: levelName_no_slash toString_no_slash ouName_no_slash levelName_valid
          toString_nonempty ouName_nonempty)
  have "parseOUPath root (getStudentOUPath root now s)
     = \<lparr>parsedSchoolLevel = Some (getSchoolLevelFromGradYear now (graduationYear s)),
        parsedGraduationYear = Some (graduationYear s),
        parsedStudentId = Some (generateStudentOUName s)\<rparr>"
    unfolding parseOUPath_def rel
    using sw parts
    by (simp add: Let_def levelName_valid parseInt_toString emptyParsedOUPath_def)
  moreover have "\<forall>p. \<not> startsWith p root \<longrightarrow> parseOUPath root p = emptyParsedOUPath"
    by (simp add: parseOUPath_def)
  ultimately show ?thesis by simp
qed

theorem path_round_trip_witness:
  "\<not> startsWith ''/org/other/path'' ''/org/student''
   \<and> parseOUPath ''/org/student'' ''/org/other/path'' = emptyParsedOUPath
   \<and> parseOUPath ''/org/student'' (getStudentOUPath ''/org/student'' testDate johnDoe)
       = \<lparr>parsedSchoolLevel = Some high, parsedGraduationYear = Some 2028,
          parsedStudentId = Some ''john.doe''\<rparr>"
proof -
  have n: "\<not> startsWith ''/org/other/path'' ''/org/student''"
    by (simp add: startsWith_def)
  have l: "getSchoolLevelFromGradYear testDate (graduationYear johnDoe) = high"
    by (simp add: getSchoolLevelFromGradYear_def currentSchoolYear_eq testDate_def johnDoe_def)
  have g: "generateStudentOUName johnDoe = ''john.doe''"
    by code_simp
  have y: "graduationYear johnDoe = 2028"
    by (simp add: johnDoe_def)
  from path_round_trip [of "''/org/student''" testDate johnDoe] n l g y show ?thesis
    by simp
qed

section \<open>Grade codes\<close>

lemma gradeMapping_levels:
  "\<forall>e \<in> set gradeMapping.
     (if 13 - gradeNumber (snd e) \<le> 4 then high
      else if 13 - gradeNumber (snd e) \<le> 7 then middle else elementary) = schoolLevel (snd e)"
  by (simp add: gradeMapping_def)

text \<open>
  Claim C6. The grade table has the codes 4K, K, 1 to 12, and for every code of the table
  and every date, the graduation year computed from the code as
  \<open>currentSchoolYear + (12 - gradeNumber) + 1\<close> is classified, at the same date, at the
  school level the table gives to the code.
\<close>

theorem derivation_agreement:
  "map fst gradeMapping
     = [''4K'', ''K'', ''1'', ''2'', ''3'', ''4'', ''5''] @ [''6'', ''7'', ''8'']
       @ [''9'', ''10'', ''11'', ''12'']
   \<and> (\<forall>g m. map_of gradeMapping g = Some m \<longrightarrow>
         calculateGraduationYear g now = Inr (currentSchoolYear now + (12 - gradeNumber m) + 1)
         \<and> getSchoolLevel g = Inr (schoolLevel m)
         \<and> getSchoolLevelFromGradYear now (currentSchoolYear now + (12 - gradeNumber m) + 1)
             = schoolLevel m)"
proof -
  have keys: "map fst gradeMapping
     = [''4K'', ''K'', ''1'', ''2'', ''3'', ''4'', ''5''] @ [''6'', ''7'', ''8'']
       @ [''9'', ''10'', ''11'', ''12'']"
    by (simp add: gradeMapping_def)
  have agree: "calculateGraduationYear g now = Inr (currentSchoolYear now + (12 - gradeNumber m) + 1)
         \<and> getSchoolLevel g = Inr (schoolLevel m)
         \<and> getSchoolLevelFromGradYear now (currentSchoolYear now + (12 - gradeNumber m) + 1)
             = schoolLevel m"
    if look: "map_of gradeMapping g = Some m" for g m
  proof -
    from look have "(g, m) \<in> set gradeMapping"
      by (rule map_of_SomeD)
    with gradeMapping_levels
    have "(if 13 - gradeNumber m \<le> 4 then high
           else if 13 - gradeNumber m \<le> 7 then middle else elementary) = schoolLevel m"
      by fastforce
    moreover have "currentSchoolYear now + (12 - gradeNumber m) + 1 - currentSchoolYear now
                   = 13 - gradeNumber m"
      by simp
    ultimately have "getSchoolLevelFromGradYear now
                       (currentSchoolYear now + (12 - gradeNumber m) + 1) = schoolLevel m"
      by (simp only: getSchoolLevelFromGradYear_def Let_def)
    with look show ?thesis
      by (simp add: calculateGraduationYear_def getSchoolLevel_def)
  qed
  from keys agree show ?thesis by blast
qed

theorem derivation_agreement_witness:
  "calculateGraduationYear ''9'' testDate = Inr 2028
   \<and> getSchoolLevel ''9'' = Inr high
   \<and> getSchoolLevelFromGradYear testDate 2028 = high"
proof -
  have look: "map_of gradeMapping ''9'' = Some \<lparr>schoolLevel = high, gradeNumber = 9\<rparr>"
    by (simp add: gradeMapping_def)
  have csy: "currentSchoolYear testDate = 2024"
    by (simp add: currentSchoolYear_eq testDate_def)
  from derivation_agreement [of testDate] look csy show ?thesis
    by fastforce
qed

section \<open>Email addresses\<close>

text \<open>
  Claim C2. For John Doe, graduation year 2028, domain school.edu, the address is
  john.doe2028@school.edu under the four-digit format and when no format is given. Under
  the two-digit format with separator \<open>.\<close> the claim and the test suite ask for
  john.doe.28@school.edu; the method returns john.doe2028@school.edu there too.
\<close>

theorem email_derivation_ignores_format:
  "generateEmailAddress_call johnDoe ''school.edu''
       (Some \<lparr>graduationYearFormat = two_digit, separator = Some ''.''\<rparr>)
     = ''john.doe2028@school.edu''
   \<and> generateEmailAddress_call johnDoe ''school.edu''
       (Some \<lparr>graduationYearFormat = two_digit, separator = Some ''.''\<rparr>)
     \<noteq> ''john.doe.28@school.edu''
   \<and> generateEmailAddress_call johnDoe ''school.edu''
       (Some \<lparr>graduationYearFormat = four_digit, separator = None\<rparr>)
     = ''john.doe2028@school.edu''
   \<and> generateEmailAddress_call johnDoe ''school.edu'' None = ''john.doe2028@school.edu''"
  by code_simp

section \<open>The planner\<close>

lemma determineActions_filter:
  "determineActions cfg root now students users devs =
     filter (\<lambda>a. modeKeeps cfg (type a))
       (accountPass root now (studentsByEmail students) (studentsByStudentId students) users
        @ rosterPass root now (processedEmails users) students
        @ addDeviceSyncActions root now devs students)"
  by (simp add: determineActions_def modeKeeps_def Let_def)

lemma accountPass_set:
  "set (accountPass root now E I users) = (\<Union>u \<in> set users. set (accountActions root now E I u))"
  by (induction users) auto

lemma accountPass_append:
  "accountPass root now E I (xs @ ys) = accountPass root now E I xs @ accountPass root now E I ys"
  by (induction xs) auto

lemma accountActions_cases:
  "accountActions root now E I u = []
   \<or> (\<exists>st. matchedStudent E I u = Some st \<and> getStudentStatus now st = active
         \<and> shouldMoveStudent root now st (orgUnitPath u)
         \<and> accountActions root now E I u
             = [\<lparr>type = move, student = st, currentUser = Some u, currentDevice = None,
                 targetOUPath = getStudentOUPath root now st,
                 reason = ''Move from '' @ pathText (orgUnitPath u) @ '' to ''
                           @ getStudentOUPath root now st\<rparr>])
   \<or> (\<exists>st. matchedStudent E I u = Some st \<and> getStudentStatus now st \<noteq> active
         \<and> \<not> truthyBool (suspended u)
         \<and> accountActions root now E I u
             = [\<lparr>type = deactivate, student = st, currentUser = Some u, currentDevice = None,
                 targetOUPath = orElse (orgUnitPath u) [],
                 reason = ''Student '' @ statusName (getStudentStatus now st)\<rparr>])
   \<or> (matchedStudent E I u = None \<and> isActiveStudentOU root (orElse (orgUnitPath u) [])
         \<and> \<not> truthyBool (suspended u)
         \<and> accountActions root now E I u
             = [\<lparr>type = deactivate, student = createPlaceholderStudent u,
                 currentUser = Some u, currentDevice = None,
                 targetOUPath = orElse (orgUnitPath u) [],
                 reason = ''Not found in enrollment data''\<rparr>])"
  unfolding accountActions_def Let_def
  by (cases "matchedStudent E I u") simp_all

lemma accountActions_currentUser:
  "a \<in> set (accountActions root now E I u) \<Longrightarrow> currentUser a = Some u"
  using accountActions_cases [of root now E I u]
  by (elim disjE exE conjE) simp_all

lemma accountActions_type:
  "a \<in> set (accountActions root now E I u) \<Longrightarrow> type a = move \<or> type a = deactivate"
  using accountActions_cases [of root now E I u]
  by (elim disjE exE conjE) simp_all

lemma deviceActions_cases:
  "deviceActions root now devs st = []
   \<or> (\<exists>serial device. deviceSerial st = Some serial \<and> serial \<noteq> [] \<and> devs serial = Some device
         \<and> getStudentStatus now st = active
         \<and> deviceOrgUnitPath device \<noteq> Some (getStudentOUPath root now st)
         \<and> deviceActions root now devs st
             = [\<lparr>type = move_device, student = st, currentUser = None,
                 currentDevice = Some device, targetOUPath = getStudentOUPath root now st,
                 reason = ''Move device from '' @ orElse (deviceOrgUnitPath device) ''unknown''
                           @ '' to '' @ getStudentOUPath root now st\<rparr>])"
  unfolding deviceActions_def Let_def
  by (simp split: option.split)

lemma deviceActions_shape:
  "a \<in> set (deviceActions root now devs st) \<Longrightarrow>
     type a = move_device \<and> currentUser a = None \<and> student a = st
     \<and> targetOUPath a = getStudentOUPath root now st"
  using deviceActions_cases [of root now devs st]
  by (elim disjE exE conjE) simp_all

lemma rosterPass_mem:
  "a \<in> set (rosterPass root now pr students) \<longleftrightarrow>
     (\<exists>st \<in> set students. needsAccount now pr st
        \<and> a = \<lparr>type = create, student = st, currentUser = None, currentDevice = None,
                targetOUPath = getStudentOUPath root now st, reason = ''New student''\<rparr>)"
  by (induction students) (simp_all, blast)

lemma addDevice_set:
  "set (addDeviceSyncActions root now devs students)
     = (\<Union>st \<in> set students. set (deviceActions root now devs st))"
  by (induction students) simp_all

lemma studentsByEmail_snoc:
  "studentsByEmail (xs @ [x]) =
     (case email x of
        None \<Rightarrow> studentsByEmail xs
      | Some e \<Rightarrow> if e = [] then studentsByEmail xs else (studentsByEmail xs)(toLowerCase e \<mapsto> x))"
  by (simp add: studentsByEmail_def split: option.split)

lemma studentsByEmail_Nil: "studentsByEmail [] = Map.empty"
  by (simp add: studentsByEmail_def)

lemma studentsByEmail_Some:
  "studentsByEmail xs k = Some s \<Longrightarrow> s \<in> set xs \<and> emailKey s = Some k"
proof (induction xs arbitrary: s rule: rev_induct)
  case Nil
  then show ?case by (simp add: studentsByEmail_Nil)
next
  case (snoc x xs)
  show ?case
  proof (cases "emailKey x = Some k")
    case True
    then have "studentsByEmail (xs @ [x]) k = Some x"
      by (auto simp add: studentsByEmail_snoc emailKey_def split: option.splits if_splits)
    with snoc.prems True show ?thesis by simp
  next
    case False
    then have "studentsByEmail (xs @ [x]) k = studentsByEmail xs k"
      by (auto simp add: studentsByEmail_snoc emailKey_def split: option.splits)
    with snoc show ?thesis by simp
  qed
qed

lemma studentsByEmail_defined:
  "s \<in> set xs \<Longrightarrow> emailKey s = Some k \<Longrightarrow> studentsByEmail xs k \<noteq> None"
proof (induction xs rule: rev_induct)
  case Nil
  then show ?case by simp
next
  case (snoc x xs)
  show ?case
  proof (cases "emailKey x = Some k")
    case True
    then have "studentsByEmail (xs @ [x]) k = Some x"
      by (auto simp add: studentsByEmail_snoc emailKey_def split: option.splits if_splits)
    then show ?thesis by simp
  next
    case False
    then have eq: "studentsByEmail (xs @ [x]) k = studentsByEmail xs k"
      by (auto simp add: studentsByEmail_snoc emailKey_def split: option.splits)
    from False snoc.prems have "s \<in> set xs" by auto
    with snoc eq show ?thesis by simp
  qed
qed

lemma studentsByEmail_unique:
  assumes "uniqueEmails students" "s \<in> set students" "emailKey s = Some k"
  shows "studentsByEmail students k = Some s"
proof -
  from studentsByEmail_defined [OF assms(2,3)]
  obtain t where t: "studentsByEmail students k = Some t" by auto
  from studentsByEmail_Some [OF t] have "t \<in> set students" "emailKey t = Some k" by simp_all
  with assms have "s = t" unfolding uniqueEmails_def by auto
  with t show ?thesis by simp
qed

lemma targetPath_nonempty: "getStudentOUPath root now st \<noteq> []"
  by (simp add: getStudentOUPath_def Let_def)

lemma shouldMove_at_target:
  "\<not> shouldMoveStudent root now st (Some (getStudentOUPath root now st))"
  by (simp add: shouldMoveStudent_def targetPath_nonempty)

lemma accountActions_active:
  "matchedStudent E I u = Some st \<Longrightarrow> getStudentStatus now st = active \<Longrightarrow>
   \<not> shouldMoveStudent root now st (orgUnitPath u) \<Longrightarrow> accountActions root now E I u = []"
  by (simp add: accountActions_def)

lemma accountActions_suspended:
  "truthyBool (suspended u) \<Longrightarrow> b \<in> set (accountActions root now E I u) \<Longrightarrow> type b = move"
  using accountActions_cases [of root now E I u]
  by (elim disjE exE conjE) simp_all

lemma applyToAccount_primaryEmail [simp]: "primaryEmail (applyToAccount plan u) = primaryEmail u"
  by (simp add: applyToAccount_def Let_def)

lemma applyToAccount_externalIds [simp]: "externalIds (applyToAccount plan u) = externalIds u"
  by (simp add: applyToAccount_def Let_def)

lemma findStudentByExternalId_apply [simp]:
  "findStudentByExternalId (applyToAccount plan u) I = findStudentByExternalId u I"
  by (simp add: findStudentByExternalId_def)

lemma matchedStudent_apply [simp]:
  "matchedStudent E I (applyToAccount plan u) = matchedStudent E I u"
  by (simp add: matchedStudent_def split: option.split)

lemma apply_keeps_suspended:
  "truthyBool (suspended u) \<Longrightarrow> truthyBool (suspended (applyToAccount plan u))"
  by (simp add: applyToAccount_def Let_def truthyBool_def)

lemma apply_deactivated:
  "a \<in> set plan \<Longrightarrow> type a = deactivate \<Longrightarrow> currentUser a = Some u \<Longrightarrow>
   truthyBool (suspended (applyToAccount plan u))"
proof -
  assume "a \<in> set plan" "type a = deactivate" "currentUser a = Some u"
  then have "filter (\<lambda>a. type a = deactivate \<and> currentUser a = Some u) plan \<noteq> []"
    by (auto simp add: filter_empty_conv)
  then show ?thesis
    by (simp add: applyToAccount_def Let_def truthyBool_def)
qed

lemma apply_path_unmoved:
  "\<forall>a \<in> set plan. \<not> (type a = move \<and> currentUser a = Some u) \<Longrightarrow>
   orgUnitPath (applyToAccount plan u) = orgUnitPath u"
proof -
  assume "\<forall>a \<in> set plan. \<not> (type a = move \<and> currentUser a = Some u)"
  then have "filter (\<lambda>a. type a = move \<and> currentUser a = Some u) plan = []"
    by (simp add: filter_empty_conv)
  then show ?thesis
    by (simp add: applyToAccount_def Let_def)
qed

lemma apply_path_moved:
  assumes "a \<in> set plan" "type a = move" "currentUser a = Some u"
    and "\<forall>b \<in> set plan. type b = move \<and> currentUser b = Some u \<longrightarrow> targetOUPath b = T"
  shows "orgUnitPath (applyToAccount plan u) = Some T"
proof -
  let ?moves = "filter (\<lambda>a. type a = move \<and> currentUser a = Some u) plan"
  from assms(1-3) have ne: "?moves \<noteq> []"
    by (auto simp add: filter_empty_conv)
  then have "last ?moves \<in> set ?moves" by (rule last_in_set)
  with assms(4) have "targetOUPath (last ?moves) = T" by simp
  with ne show ?thesis
    by (simp add: applyToAccount_def Let_def)
qed

lemma plan_member:
  "a \<in> set (determineActions cfg root now students users devs) \<longleftrightarrow>
     modeKeeps cfg (type a)
     \<and> (a \<in> set (accountPass root now (studentsByEmail students) (studentsByStudentId students) users)
        \<or> a \<in> set (rosterPass root now (processedEmails users) students)
        \<or> a \<in> set (addDeviceSyncActions root now devs students))"
  unfolding determineActions_filter by auto

lemma rosterPass_shape:
  "a \<in> set (rosterPass root now pr students) \<Longrightarrow> type a = create \<and> currentUser a = None"
  unfolding rosterPass_mem by auto

lemma addDevice_shape:
  "a \<in> set (addDeviceSyncActions root now devs students) \<Longrightarrow>
     type a = move_device \<and> currentUser a = None"
  unfolding addDevice_set using deviceActions_shape by blast

lemma plan_currentUser:
  assumes "a \<in> set (determineActions cfg root now students users devs)"
    and "currentUser a = Some u"
  shows "a \<in> set (accountActions root now (studentsByEmail students) (studentsByStudentId students) u)"
proof -
  from assms(1) consider
      "a \<in> set (accountPass root now (studentsByEmail students) (studentsByStudentId students) users)"
    | "a \<in> set (rosterPass root now (processedEmails users) students)"
    | "a \<in> set (addDeviceSyncActions root now devs students)"
    unfolding plan_member by blast
  then show ?thesis
  proof cases
    case 1
    then obtain v where v: "v \<in> set users"
      "a \<in> set (accountActions root now (studentsByEmail students) (studentsByStudentId students) v)"
      unfolding accountPass_set by blast
    from accountActions_currentUser [OF v(2)] assms(2) have "v = u" by simp
    with v show ?thesis by simp
  next
    case 2
    from rosterPass_shape [OF 2] assms(2) show ?thesis by simp
  next
    case 3
    from addDevice_shape [OF 3] assms(2) show ?thesis by simp
  qed
qed

lemma plan_has_account_action:
  assumes "u \<in> set users"
    and "a \<in> set (accountActions root now (studentsByEmail students) (studentsByStudentId students) u)"
    and "modeKeeps cfg (type a)"
  shows "a \<in> set (determineActions cfg root now students users devs)"
  unfolding plan_member accountPass_set using assms by blast

lemma accountActions_moving:
  "matchedStudent E I u = Some st \<Longrightarrow> getStudentStatus now st = active \<Longrightarrow>
   shouldMoveStudent root now st (orgUnitPath u) \<Longrightarrow>
   \<exists>m. accountActions root now E I u = [m] \<and> type m = move
       \<and> targetOUPath m = getStudentOUPath root now st"
  by (simp add: accountActions_def Let_def)

lemma accountActions_inactive:
  "matchedStudent E I u = Some st \<Longrightarrow> getStudentStatus now st \<noteq> active \<Longrightarrow>
   \<not> truthyBool (suspended u) \<Longrightarrow>
   \<exists>d. accountActions root now E I u = [d] \<and> type d = deactivate"
  by (simp add: accountActions_def)

lemma accountActions_unmatched:
  "matchedStudent E I u = None \<Longrightarrow> isActiveStudentOU root (orElse (orgUnitPath u) []) \<Longrightarrow>
   \<not> truthyBool (suspended u) \<Longrightarrow>
   \<exists>d. accountActions root now E I u = [d] \<and> type d = deactivate"
  by (simp add: accountActions_def)

lemma accountActions_no_move:
  "matchedStudent E I u = None \<or> (\<exists>st. matchedStudent E I u = Some st \<and> getStudentStatus now st \<noteq> active)
   \<Longrightarrow> a \<in> set (accountActions root now E I u) \<Longrightarrow> type a = deactivate"
  using accountActions_cases [of root now E I u]
  by (elim disjE exE conjE) simp_all

lemma applied_account_quiet:
  fixes cfg root now students users devs
  defines "P \<equiv> determineActions cfg root now students users devs"
    and "E \<equiv> studentsByEmail students" and "I \<equiv> studentsByStudentId students"
  assumes u: "u \<in> set users"
    and b: "b \<in> set (accountActions root now E I (applyToAccount P u))"
  shows "\<not> modeKeeps cfg (type b)"
proof
  assume keep: "modeKeeps cfg (type b)"
  let ?u' = "applyToAccount P u"
  have K: "c \<in> set (accountActions root now E I u)" if "c \<in> set P" "currentUser c = Some u" for c
    using that plan_currentUser unfolding P_def E_def I_def by blast
  have K2: "c \<in> set P" if "c \<in> set (accountActions root now E I u)" "modeKeeps cfg (type c)" for c
    using that u plan_has_account_action unfolding P_def E_def I_def by blast
  from b accountActions_cases [of root now E I ?u']
  consider
      (mv) st where "matchedStudent E I u = Some st" "getStudentStatus now st = active"
        "shouldMoveStudent root now st (orgUnitPath ?u')" "type b = move"
    | (de) st where "matchedStudent E I u = Some st" "getStudentStatus now st \<noteq> active"
        "\<not> truthyBool (suspended ?u')" "type b = deactivate"
    | (un) "matchedStudent E I u = None" "isActiveStudentOU root (orElse (orgUnitPath ?u') [])"
        "\<not> truthyBool (suspended ?u')" "type b = deactivate"
    by (elim disjE exE conjE) auto
  then show False
  proof cases
    case mv
    show False
    proof (cases "shouldMoveStudent root now st (orgUnitPath u)")
      case True
      from accountActions_moving [OF mv(1,2) True]
      obtain m where m: "accountActions root now E I u = [m]" "type m = move"
        "targetOUPath m = getStudentOUPath root now st" by blast
      from m keep mv(4) have mP: "m \<in> set P" by (intro K2) simp_all
      have cu: "currentUser m = Some u"
        using accountActions_currentUser [of m root now E I u] m by simp
      have "\<forall>c \<in> set P. type c = move \<and> currentUser c = Some u
              \<longrightarrow> targetOUPath c = getStudentOUPath root now st"
        using K m by auto
      from apply_path_moved [OF mP m(2) cu this]
      have "orgUnitPath ?u' = Some (getStudentOUPath root now st)" .
      with mv(3) shouldMove_at_target show False by simp
    next
      case False
      from accountActions_active [OF mv(1,2) False]
      have "accountActions root now E I u = []" .
      with K have "\<forall>c \<in> set P. \<not> (type c = move \<and> currentUser c = Some u)" by fastforce
      from apply_path_unmoved [OF this] mv(3) False show False by simp
    qed
  next
    case de
    from de(3) apply_keeps_suspended have ns: "\<not> truthyBool (suspended u)" by blast
    from accountActions_inactive [OF de(1,2) ns]
    obtain d where d: "accountActions root now E I u = [d]" "type d = deactivate" by blast
    from d keep de(4) have dP: "d \<in> set P" by (intro K2) simp_all
    have cu: "currentUser d = Some u"
      using accountActions_currentUser [of d root now E I u] d by simp
    from apply_deactivated [OF dP d(2) cu] de(3) show False by simp
  next
    case un
    from un(3) apply_keeps_suspended have ns: "\<not> truthyBool (suspended u)" by blast
    have "\<forall>c \<in> set P. \<not> (type c = move \<and> currentUser c = Some u)"
    proof (intro ballI notI)
      fix c assume "c \<in> set P" "type c = move \<and> currentUser c = Some u"
      then have "c \<in> set (accountActions root now E I u)" using K by blast
      with un(1) accountActions_no_move [of E I u now c root] have "type c = deactivate" by blast
      with \<open>type c = move \<and> currentUser c = Some u\<close> show False by simp
    qed
    from apply_path_unmoved [OF this] un(2)
    have act: "isActiveStudentOU root (orElse (orgUnitPath u) [])" by simp
    from accountActions_unmatched [OF un(1) act ns]
    obtain d where d: "accountActions root now E I u = [d]" "type d = deactivate" by blast
    from d keep un(4) have dP: "d \<in> set P" by (intro K2) simp_all
    have cu: "currentUser d = Some u"
      using accountActions_currentUser [of d root now E I u] d by simp
    from apply_deactivated [OF dP d(2) cu] un(3) show False by simp
  qed
qed

lemma emailKey_Some: "emailKey st = Some k \<longleftrightarrow> (\<exists>e. email st = Some e \<and> e \<noteq> [] \<and> k = toLowerCase e)"
  by (auto simp add: emailKey_def split: option.splits)

lemma needsAccount_iff:
  "needsAccount now pr st \<longleftrightarrow>
     getStudentStatus now st = active \<and> (\<exists>k. emailKey st = Some k \<and> k \<notin> set pr)"
  by (auto simp add: needsAccount_def emailKey_def split: option.splits)

lemma createdAccount_fields:
  "emailKey (student a) = Some k \<Longrightarrow> toLowerCase (primaryEmail (createdAccount a)) = k"
  "orgUnitPath (createdAccount a) = Some (targetOUPath a)"
  by (auto simp add: createdAccount_def emailKey_def orElse_def split: option.splits if_splits)

lemma plan_create:
  assumes "a \<in> set (determineActions cfg root now students users devs)" "type a = create"
  shows "\<exists>st \<in> set students. needsAccount now (processedEmails users) st
           \<and> student a = st \<and> targetOUPath a = getStudentOUPath root now st"
proof -
  from assms(1) consider
      "a \<in> set (accountPass root now (studentsByEmail students) (studentsByStudentId students) users)"
    | "a \<in> set (rosterPass root now (processedEmails users) students)"
    | "a \<in> set (addDeviceSyncActions root now devs students)"
    unfolding plan_member by blast
  then show ?thesis
  proof cases
    case 1
    then obtain v where
      "a \<in> set (accountActions root now (studentsByEmail students) (studentsByStudentId students) v)"
      unfolding accountPass_set by blast
    from accountActions_type [OF this] assms(2) show ?thesis by simp
  next
    case 2
    then show ?thesis unfolding rosterPass_mem by auto
  next
    case 3
    from addDevice_shape [OF 3] assms(2) show ?thesis by simp
  qed
qed

lemma created_account_quiet:
  assumes uniq: "uniqueEmails students"
    and a: "a \<in> set (determineActions cfg root now students users devs)" "type a = create"
  shows "accountActions root now (studentsByEmail students) (studentsByStudentId students)
           (createdAccount a) = []"
proof -
  from plan_create [OF a] obtain st where st: "st \<in> set students"
    "needsAccount now (processedEmails users) st" "student a = st"
    "targetOUPath a = getStudentOUPath root now st" by blast
  from st(2) obtain k where k: "emailKey st = Some k" and act: "getStudentStatus now st = active"
    unfolding needsAccount_iff by blast
  from createdAccount_fields(1) [of a k] k st(3)
  have "toLowerCase (primaryEmail (createdAccount a)) = k" by simp
  moreover from studentsByEmail_unique [OF uniq st(1) k]
  have "studentsByEmail students k = Some st" .
  ultimately have m: "matchedStudent (studentsByEmail students) (studentsByStudentId students)
                        (createdAccount a) = Some st"
    by (simp add: matchedStudent_def)
  have "\<not> shouldMoveStudent root now st (orgUnitPath (createdAccount a))"
    using shouldMove_at_target [of root now st] st(4) by (simp add: createdAccount_fields(2))
  from accountActions_active [OF m act this] show ?thesis .
qed

lemma processed_after:
  "set (processedEmails (accountsAfterApplyingPlan plan users))
     = set (processedEmails users)
       \<union> (\<lambda>a. toLowerCase (primaryEmail (createdAccount a))) ` {a \<in> set plan. type a = create}"
  by (auto simp add: processedEmails_def accountsAfterApplyingPlan_def)

lemma roster_quiet:
  fixes cfg root now students users devs
  defines "P \<equiv> determineActions cfg root now students users devs"
  assumes st: "st \<in> set students"
    and need: "needsAccount now (processedEmails (accountsAfterApplyingPlan P users)) st"
  shows "\<not> modeKeeps cfg create"
proof
  assume keep: "modeKeeps cfg create"
  from need obtain k where k: "emailKey st = Some k" and act: "getStudentStatus now st = active"
    and nk: "k \<notin> set (processedEmails (accountsAfterApplyingPlan P users))"
    unfolding needsAccount_iff by blast
  from nk have nk0: "k \<notin> set (processedEmails users)"
    unfolding processed_after by simp
  with k act have need0: "needsAccount now (processedEmails users) st"
    unfolding needsAccount_iff by blast
  let ?a = "\<lparr>type = create, student = st, currentUser = None, currentDevice = None,
              targetOUPath = getStudentOUPath root now st, reason = ''New student''\<rparr>"
  from st need0 have "?a \<in> set (rosterPass root now (processedEmails users) students)"
    unfolding rosterPass_mem by blast
  with keep have aP: "?a \<in> set P"
    unfolding P_def plan_member by simp
  have "toLowerCase (primaryEmail (createdAccount ?a)) = k"
    using createdAccount_fields(1) [of ?a k] k by simp
  with aP have "k \<in> set (processedEmails (accountsAfterApplyingPlan P users))"
    unfolding processed_after by force
  with nk show False by simp
qed

lemma plan_move_device:
  assumes "a \<in> set (determineActions cfg root now students users devs)" "type a = move_device"
  shows "\<exists>st \<in> set students. a \<in> set (deviceActions root now devs st)"
proof -
  from assms(1) consider
      "a \<in> set (accountPass root now (studentsByEmail students) (studentsByStudentId students) users)"
    | "a \<in> set (rosterPass root now (processedEmails users) students)"
    | "a \<in> set (addDeviceSyncActions root now devs students)"
    unfolding plan_member by blast
  then show ?thesis
  proof cases
    case 1
    then obtain v where
      "a \<in> set (accountActions root now (studentsByEmail students) (studentsByStudentId students) v)"
      unfolding accountPass_set by blast
    from accountActions_type [OF this] assms(2) show ?thesis by simp
  next
    case 2
    from rosterPass_shape [OF 2] assms(2) show ?thesis by simp
  next
    case 3
    then show ?thesis unfolding addDevice_set by blast
  qed
qed

lemma deviceActions_needed:
  "deviceSerial st = Some serial \<Longrightarrow> serial \<noteq> [] \<Longrightarrow> devs serial = Some device \<Longrightarrow>
   getStudentStatus now st = active \<Longrightarrow>
   deviceOrgUnitPath device \<noteq> Some (getStudentOUPath root now st) \<Longrightarrow>
   \<exists>m. deviceActions root now devs st = [m] \<and> type m = move_device \<and> student m = st"
  by (simp add: deviceActions_def Let_def)

lemma device_quiet:
  fixes cfg root now students users devs
  defines "P \<equiv> determineActions cfg root now students users devs"
  assumes uniq: "uniqueSerials students"
    and st: "st \<in> set students"
    and b: "b \<in> set (deviceActions root now (devicesAfterApplyingPlan P devs) st)"
  shows "\<not> modeKeeps cfg move_device"
proof
  assume keep: "modeKeeps cfg move_device"
  from b deviceActions_cases [of root now "devicesAfterApplyingPlan P devs" st]
  obtain serial d1 where s: "deviceSerial st = Some serial" "serial \<noteq> []"
    and d1: "devicesAfterApplyingPlan P devs serial = Some d1"
    and act: "getStudentStatus now st = active"
    and off: "deviceOrgUnitPath d1 \<noteq> Some (getStudentOUPath root now st)"
    by (elim disjE exE conjE) auto
  let ?moves = "filter (\<lambda>a. type a = move_device \<and> deviceSerial (student a) = Some serial) P"
  from d1 obtain d where d: "devs serial = Some d"
    and d1_eq: "d1 = (if ?moves = [] then d
                      else d\<lparr>deviceOrgUnitPath := Some (targetOUPath (last ?moves))\<rparr>)"
    by (auto simp add: devicesAfterApplyingPlan_def Let_def split: option.splits if_splits)
  have target: "targetOUPath c = getStudentOUPath root now st" if c: "c \<in> set ?moves" for c
  proof -
    from c have cP: "c \<in> set P" and ct: "type c = move_device"
      and cs: "deviceSerial (student c) = Some serial" by simp_all
    from plan_move_device [OF cP [unfolded P_def] ct]
    obtain t where t: "t \<in> set students" "c \<in> set (deviceActions root now devs t)" by blast
    from deviceActions_shape [OF t(2)] have sh: "student c = t"
      "targetOUPath c = getStudentOUPath root now t" by simp_all
    from s cs sh(1) have "truthyStr (deviceSerial st)" "deviceSerial st = deviceSerial t"
      by (simp_all add: truthyStr_def)
    with uniq st t(1) have "st = t" unfolding uniqueSerials_def by blast
    with sh(2) show ?thesis by simp
  qed
  show False
  proof (cases "?moves = []")
    case False
    then have "last ?moves \<in> set ?moves" by (rule last_in_set)
    from target [OF this] False d1_eq off show False by simp
  next
    case True
    with d1_eq have "d1 = d" by simp
    with off have "deviceOrgUnitPath d \<noteq> Some (getStudentOUPath root now st)" by simp
    from deviceActions_needed [where devs = devs, OF s d act this]
    obtain m where m: "deviceActions root now devs st = [m]" "type m = move_device"
      "student m = st" by blast
    from m(1) st have "m \<in> set (addDeviceSyncActions root now devs students)"
      unfolding addDevice_set by force
    with keep m(2) have "m \<in> set P" unfolding P_def plan_member by simp
    with m(2,3) s(1) have "m \<in> set ?moves" by simp
    with True show False by simp
  qed
qed

text \<open>
  Claim C1, amended. For every roster whose records have pairwise different lower-cased
  addresses and pairwise different device serials, every snapshot of accounts and of
  devices, every mode and every date: when the plan is carried out (each created account
  exists at its target path, unsuspended, with the student's address and identifier, each
  moved account and device is at its target path, each deactivated account is suspended,
  nothing else changes), the plan computed from the new snapshots at the same date is
  empty. The planner is a function of its arguments, so computing the plan again from the
  same snapshots gives the same plan.
\<close>

theorem plan_idempotent:
  assumes "uniqueEmails students" and "uniqueSerials students"
  shows "determineActions cfg root now students
           (accountsAfterApplyingPlan (determineActions cfg root now students users devs) users)
           (devicesAfterApplyingPlan (determineActions cfg root now students users devs) devs)
         = []"
proof -
  let ?P = "determineActions cfg root now students users devs"
  let ?E = "studentsByEmail students" and ?I = "studentsByStudentId students"
  have acc: "\<not> modeKeeps cfg (type a)"
    if a: "a \<in> set (accountPass root now ?E ?I (accountsAfterApplyingPlan ?P users))" for a
  proof -
    from a obtain v where v: "v \<in> set (accountsAfterApplyingPlan ?P users)"
      "a \<in> set (accountActions root now ?E ?I v)"
      unfolding accountPass_set by blast
    from v(1) consider
        u where "u \<in> set users" "v = applyToAccount ?P u"
      | c where "c \<in> set ?P" "type c = create" "v = createdAccount c"
      unfolding accountsAfterApplyingPlan_def by auto
    then show ?thesis
    proof cases
      case 1
      with v(2) applied_account_quiet [of u users a root now students cfg devs]
      show ?thesis by simp
    next
      case 2
      from created_account_quiet [OF assms(1) 2(1,2)] v(2) 2(3) show ?thesis by simp
    qed
  qed
  have ros: "\<not> modeKeeps cfg (type a)"
    if a: "a \<in> set (rosterPass root now
                      (processedEmails (accountsAfterApplyingPlan ?P users)) students)" for a
  proof -
    from a obtain st where st: "st \<in> set students"
      "needsAccount now (processedEmails (accountsAfterApplyingPlan ?P users)) st"
      "type a = create"
      unfolding rosterPass_mem by auto
    from roster_quiet [OF st(1,2)] st(3) show ?thesis by simp
  qed
  have dev: "\<not> modeKeeps cfg (type a)"
    if a: "a \<in> set (addDeviceSyncActions root now (devicesAfterApplyingPlan ?P devs) students)"
    for a
  proof -
    from a obtain st where st: "st \<in> set students"
      "a \<in> set (deviceActions root now (devicesAfterApplyingPlan ?P devs) st)"
      unfolding addDevice_set by blast
    from deviceActions_shape [OF st(2)] device_quiet [OF assms(2) st(1,2)]
    show ?thesis by simp
  qed
  show ?thesis
    unfolding determineActions_filter [of cfg root now students "accountsAfterApplyingPlan ?P users"]
      filter_empty_conv
    using acc ros dev by auto
qed

text \<open>
  As stated for every roster, the property fails: with two roster records that share an
  address (one active, one graduated) the account created for the first is deactivated
  by the next plan; with two active records that share a device serial the plan moves
  the device twice, the device ends at the second target, and the next plan moves it
  again.
\<close>

theorem plan_idempotent_counterexample:
  "determineActions plainConfig ''/org/student'' testDate [janeActive, bobGraduated]
     (accountsAfterApplyingPlan
        (determineActions plainConfig ''/org/student'' testDate [janeActive, bobGraduated] [] Map.empty) [])
     (devicesAfterApplyingPlan
        (determineActions plainConfig ''/org/student'' testDate [janeActive, bobGraduated] [] Map.empty)
        Map.empty)
   \<noteq> []
   \<and> determineActions plainConfig ''/org/student'' testDate [annWithDevice, benWithDevice]
     (accountsAfterApplyingPlan
        (determineActions plainConfig ''/org/student'' testDate [annWithDevice, benWithDevice]
           [annAccount] [''CHR001'' \<mapsto> chromebook]) [annAccount])
     (devicesAfterApplyingPlan
        (determineActions plainConfig ''/org/student'' testDate [annWithDevice, benWithDevice]
           [annAccount] [''CHR001'' \<mapsto> chromebook]) [''CHR001'' \<mapsto> chromebook])
   \<noteq> []"
  by code_simp

theorem plan_idempotent_witness:
  "uniqueEmails [annWithDevice, bobGraduated] \<and> uniqueSerials [annWithDevice, bobGraduated]
   \<and> length (determineActions plainConfig ''/org/student'' testDate [annWithDevice, bobGraduated]
       [annAccount, bobAccount] [''CHR001'' \<mapsto> chromebook]) = 3
   \<and> determineActions plainConfig ''/org/student'' testDate [annWithDevice, bobGraduated]
       (accountsAfterApplyingPlan
          (determineActions plainConfig ''/org/student'' testDate [annWithDevice, bobGraduated]
             [annAccount, bobAccount] [''CHR001'' \<mapsto> chromebook]) [annAccount, bobAccount])
       (devicesAfterApplyingPlan
          (determineActions plainConfig ''/org/student'' testDate [annWithDevice, bobGraduated]
             [annAccount, bobAccount] [''CHR001'' \<mapsto> chromebook]) [''CHR001'' \<mapsto> chromebook])
     = []"
proof -
  have e: "uniqueEmails [annWithDevice, bobGraduated]"
    by code_simp
  have s: "uniqueSerials [annWithDevice, bobGraduated]"
    by code_simp
  have n: "length (determineActions plainConfig ''/org/student'' testDate [annWithDevice, bobGraduated]
       [annAccount, bobAccount] [''CHR001'' \<mapsto> chromebook]) = 3"
    by code_simp
  from e s n plan_idempotent [OF e s] show ?thesis by blast
qed

lemma accountActions_own:
  "filter (\<lambda>a. currentUser a = Some u) (accountActions root now E I v)
     = (if v = u then accountActions root now E I u else [])"
proof (cases "v = u")
  case True
  then show ?thesis
    using accountActions_currentUser [of _ root now E I u] by (simp add: filter_id_conv)
next
  case False
  then show ?thesis
    using accountActions_currentUser [of _ root now E I v] by (auto simp add: filter_empty_conv)
qed

lemma accountPass_own:
  "filter (\<lambda>a. currentUser a = Some u) (accountPass root now E I users)
     = concat (replicate (count_list users u) (accountActions root now E I u))"
  by (induction users) (simp_all add: accountActions_own)

lemma rosterPass_own:
  "filter (\<lambda>a. currentUser a = Some u) (rosterPass root now pr students) = []"
  using rosterPass_shape [of _ root now pr students] by (auto simp add: filter_empty_conv)

lemma addDevice_own:
  "filter (\<lambda>a. currentUser a = Some u) (addDeviceSyncActions root now devs students) = []"
  using addDevice_shape [of _ root now devs students] by (auto simp add: filter_empty_conv)

text \<open>
  Claim C9, amended. When the mode is unrestricted or deactivate-only, an account that
  occurs once in the snapshot, is matched to a roster record whose status is graduated
  and is not suspended gets exactly one action in the plan: a deactivation carrying that
  record and that account, whose reason is the text \<open>Student graduated\<close>.
\<close>

theorem graduated_account_deactivated:
  assumes once: "count_list users u = 1"
    and matched: "matchedStudent (studentsByEmail students) (studentsByStudentId students) u = Some st"
    and grad: "getStudentStatus now st = graduated"
    and unsuspended: "\<not> truthyBool (suspended u)"
    and mode: "\<not> createOnly cfg" "\<not> moveOnly cfg"
  shows "filter (\<lambda>a. currentUser a = Some u) (determineActions cfg root now students users devs)
         = [\<lparr>type = deactivate, student = st, currentUser = Some u, currentDevice = None,
             targetOUPath = orElse (orgUnitPath u) [], reason = ''Student graduated''\<rparr>]"
proof -
  let ?E = "studentsByEmail students" and ?I = "studentsByStudentId students"
  let ?d = "\<lparr>type = deactivate, student = st, currentUser = Some u, currentDevice = None,
             targetOUPath = orElse (orgUnitPath u) [], reason = ''Student graduated''\<rparr>"
  have own: "accountActions root now ?E ?I u = [?d]"
    using matched grad unsuspended by (simp add: accountActions_def)
  have keep: "modeKeeps cfg deactivate"
    using mode by (simp add: modeKeeps_def)
  have "filter (\<lambda>a. currentUser a = Some u) (determineActions cfg root now students users devs)
        = filter (\<lambda>a. modeKeeps cfg (type a))
            (filter (\<lambda>a. currentUser a = Some u)
               (accountPass root now ?E ?I users
                @ rosterPass root now (processedEmails users) students
                @ addDeviceSyncActions root now devs students))"
    unfolding determineActions_filter by (simp add: conj_commute)
  also have "filter (\<lambda>a. currentUser a = Some u)
               (accountPass root now ?E ?I users
                @ rosterPass root now (processedEmails users) students
                @ addDeviceSyncActions root now devs students) = [?d]"
    using once own by (simp add: accountPass_own rosterPass_own addDevice_own)
  finally show ?thesis using keep by simp
qed

theorem graduated_account_deactivated_witness:
  "filter (\<lambda>a. currentUser a = Some bobAccount)
     (determineActions plainConfig ''/org/student'' testDate [bobGraduated] [bobAccount] Map.empty)
   = [\<lparr>type = deactivate, student = bobGraduated, currentUser = Some bobAccount,
       currentDevice = None, targetOUPath = ''/org/student/high/2025/bob.johnson'',
       reason = ''Student graduated''\<rparr>]"
proof -
  have 1: "count_list [bobAccount] bobAccount = 1" by simp
  have 2: "matchedStudent (studentsByEmail [bobGraduated]) (studentsByStudentId [bobGraduated])
             bobAccount = Some bobGraduated"
    by code_simp
  have 3: "getStudentStatus testDate bobGraduated = graduated"
    by (simp add: getStudentStatus_def bobGraduated_def)
  have 4: "\<not> truthyBool (suspended bobAccount)"
    by (simp add: truthyBool_def bobAccount_def)
  have 5: "\<not> createOnly plainConfig" "\<not> moveOnly plainConfig"
    by (simp_all add: plainConfig_def)
  have 6: "orElse (orgUnitPath bobAccount) [] = ''/org/student/high/2025/bob.johnson''"
    by (simp add: orElse_def bobAccount_def)
  from graduated_account_deactivated [OF 1 2 3 4 5, of "''/org/student''" Map.empty] 6
  show ?thesis by simp
qed

text \<open>
  The reason is not the bare status \<open>graduated\<close>, and in create-only mode no deactivation
  is planned.
\<close>

theorem graduated_reason_counterexample:
  "map reason
     (determineActions plainConfig ''/org/student'' testDate [bobGraduated] [bobAccount] Map.empty)
   = [''Student graduated'']
   \<and> map reason
     (determineActions plainConfig ''/org/student'' testDate [bobGraduated] [bobAccount] Map.empty)
   \<noteq> [''graduated'']
   \<and> determineActions createOnlyConfig ''/org/student'' testDate [bobGraduated] [bobAccount] Map.empty
   = []"
  by code_simp


section \<open>The executor\<close>

lemma runBatch_append:
  "runBatch cfg env now w (xs @ ys) =
     (case runBatch cfg env now w xs of
        (rs, cs, w1) \<Rightarrow>
          (case runBatch cfg env now w1 ys of
             (rs', cs', w2) \<Rightarrow> (rs @ rs', cs @ cs', w2)))"
  by (induction xs arbitrary: w) (simp_all split: prod.split)

lemma executeActionsFrom_returns:
  assumes "0 < batchSize"
  shows "executeActionsFrom cfg env now actions batchSize i (rs, cs, w) =
           Some (case runBatch cfg env now w (drop i actions) of
                   (rs', cs', w') \<Rightarrow> (rs @ rs', cs @ cs', w'))"
proof (induction "length actions - i" arbitrary: i rs cs w rule: less_induct)
  case less
  show ?case
  proof (cases "i < length actions")
    case False
    then show ?thesis
      by (subst executeActionsFrom.simps) simp
  next
    case True
    obtain brs bcs w1 where b: "runBatch cfg env now w (take batchSize (drop i actions)) = (brs, bcs, w1)"
      by (cases "runBatch cfg env now w (take batchSize (drop i actions))") auto
    from True assms have "length actions - (i + batchSize) < length actions - i"
      by arith
    from less [OF this, of "rs @ brs" "cs @ bcs" w1]
    have step: "executeActionsFrom cfg env now actions batchSize (i + batchSize) (rs @ brs, cs @ bcs, w1)
          = Some (case runBatch cfg env now w1 (drop (i + batchSize) actions) of
                   (rs', cs', w') \<Rightarrow> ((rs @ brs) @ rs', (cs @ bcs) @ cs', w'))" .
    have "take batchSize (drop i actions) @ drop batchSize (drop i actions) = drop i actions"
      by (rule append_take_drop_id)
    then have split: "drop i actions = take batchSize (drop i actions) @ drop (i + batchSize) actions"
      by (simp add: add.commute)
    have "runBatch cfg env now w (drop i actions)
          = (case runBatch cfg env now w1 (drop (i + batchSize) actions) of
               (rs', cs', w2) \<Rightarrow> (brs @ rs', bcs @ cs', w2))"
      by (subst split, subst runBatch_append) (simp add: b)
    with step True b show ?thesis
      by (subst executeActionsFrom.simps) (simp split: prod.split)
  qed
qed

lemma executeActions_sequential:
  "0 < maxConcurrentRequests cfg \<Longrightarrow>
   executeActions cfg env now w actions = Some (runBatch cfg env now w actions)"
  by (simp add: executeActions_def executeActionsFrom_returns split: prod.split)

lemma executeAction_action: "action (fst (executeAction cfg env now w a)) = actionAfter cfg a"
  by (simp add: executeAction_def split: prod.split option.split)

lemma executeAction_success:
  "success (fst (executeAction cfg env now w a)) = (error (fst (executeAction cfg env now w a)) = None)"
  by (simp add: executeAction_def split: prod.split option.split)

lemma executeAction_thrown:
  "runHandler cfg env now w a = (Some t, cs, w1) \<Longrightarrow>
   executeAction cfg env now w a
     = (\<lparr>success = False, action = actionAfter cfg a, error = Some (thrownMessage t)\<rparr>, cs, w1)"
  by (simp add: executeAction_def)

lemma executeAction_returned:
  "runHandler cfg env now w a = (None, cs, w1) \<Longrightarrow>
   executeAction cfg env now w a
     = (\<lparr>success = True, action = actionAfter cfg a, error = None\<rparr>, cs, w1)"
  by (simp add: executeAction_def)

lemma runBatch_results_Cons:
  "fst (runBatch cfg env now w (a # rest))
     = fst (executeAction cfg env now w a)
       # fst (runBatch cfg env now (snd (snd (executeAction cfg env now w a))) rest)"
  by (simp split: prod.split)

lemma runBatch_calls_Cons:
  "fst (snd (runBatch cfg env now w (a # rest)))
     = fst (snd (executeAction cfg env now w a))
       @ fst (snd (runBatch cfg env now (snd (snd (executeAction cfg env now w a))) rest))"
  by (simp split: prod.split)

lemma runBatch_state_Cons:
  "snd (snd (runBatch cfg env now w (a # rest)))
     = snd (snd (runBatch cfg env now (snd (snd (executeAction cfg env now w a))) rest))"
  by (simp split: prod.split)

lemma runBatch_length: "length (fst (runBatch cfg env now w actions)) = length actions"
proof (induction actions arbitrary: w)
  case Nil
  then show ?case by simp
next
  case (Cons a rest)
  show ?case unfolding runBatch_results_Cons by (simp add: Cons)
qed

lemma runBatch_actions:
  "map action (fst (runBatch cfg env now w actions)) = map (actionAfter cfg) actions"
proof (induction actions arbitrary: w)
  case Nil
  then show ?case by simp
next
  case (Cons a rest)
  show ?case
    unfolding runBatch_results_Cons
    by (simp add: Cons executeAction_action)
qed

lemma runBatch_nth:
  "i < length actions \<Longrightarrow>
   fst (runBatch cfg env now w actions) ! i
     = fst (executeAction cfg env now (snd (snd (runBatch cfg env now w (take i actions))))
              (actions ! i))"
proof (induction actions arbitrary: w i)
  case Nil
  then show ?case by simp
next
  case (Cons a rest)
  show ?case
  proof (cases i)
    case 0
    then show ?thesis unfolding runBatch_results_Cons by simp
  next
    case (Suc j)
    with Cons.prems have "j < length rest" by simp
    from Cons.IH [OF this] Suc show ?thesis
      unfolding runBatch_results_Cons by (simp add: runBatch_state_Cons del: runBatch.simps)
  qed
qed

lemma runBatch_success:
  "r \<in> set (fst (runBatch cfg env now w actions)) \<Longrightarrow> success r = (error r = None)"
proof (induction actions arbitrary: w)
  case Nil
  then show ?case by simp
next
  case (Cons a rest)
  from Cons.prems have "r = fst (executeAction cfg env now w a)
      \<or> r \<in> set (fst (runBatch cfg env now (snd (snd (executeAction cfg env now w a))) rest))"
    unfolding runBatch_results_Cons by simp
  then show ?case
  proof
    assume eq: "r = fst (executeAction cfg env now w a)"
    show ?thesis unfolding eq by (rule executeAction_success)
  next
    assume "r \<in> set (fst (runBatch cfg env now (snd (snd (executeAction cfg env now w a))) rest))"
    then show ?thesis by (rule Cons.IH)
  qed
qed

text \<open>
  Claim C8. For every action list and every positive concurrency limit, \<open>executeActions\<close>
  returns, and what it returns is what running the actions one after the other gives,
  whatever the batch size: one result per action, in the order of the actions, each
  carrying its action; a result is a failure exactly when it records an error; the
  result at each position is the one \<open>executeAction\<close> gives for the action at that position
  in the state the earlier actions left, so that no earlier failure removes or replaces
  it; and whatever a handler throws ends up in the result of its own action, with
  \<open>success\<close> false and the error recorded.
\<close>

theorem executor_isolation:
  assumes "0 < maxConcurrentRequests cfg"
  shows "executeActions cfg env now w actions = Some (runBatch cfg env now w actions)
     \<and> length (fst (runBatch cfg env now w actions)) = length actions
     \<and> map action (fst (runBatch cfg env now w actions)) = map (actionAfter cfg) actions
     \<and> (\<forall>r \<in> set (fst (runBatch cfg env now w actions)). success r = (error r = None))
     \<and> (\<forall>i < length actions.
          fst (runBatch cfg env now w actions) ! i
            = fst (executeAction cfg env now
                     (snd (snd (runBatch cfg env now w (take i actions)))) (actions ! i)))
     \<and> (\<forall>w0 a t cs w1. runHandler cfg env now w0 a = (Some t, cs, w1) \<longrightarrow>
          executeAction cfg env now w0 a
            = (\<lparr>success = False, action = actionAfter cfg a, error = Some (thrownMessage t)\<rparr>,
               cs, w1))"
proof (intro conjI)
  show "executeActions cfg env now w actions = Some (runBatch cfg env now w actions)"
    using assms by (rule executeActions_sequential)
  show "length (fst (runBatch cfg env now w actions)) = length actions"
    by (rule runBatch_length)
  show "map action (fst (runBatch cfg env now w actions)) = map (actionAfter cfg) actions"
    by (rule runBatch_actions)
  show "\<forall>r \<in> set (fst (runBatch cfg env now w actions)). success r = (error r = None)"
    by (intro ballI) (rule runBatch_success)
  show "\<forall>i < length actions.
          fst (runBatch cfg env now w actions) ! i
            = fst (executeAction cfg env now
                     (snd (snd (runBatch cfg env now w (take i actions)))) (actions ! i))"
    by (intro allI impI) (rule runBatch_nth)
  show "\<forall>w0 a t cs w1. runHandler cfg env now w0 a = (Some t, cs, w1) \<longrightarrow>
          executeAction cfg env now w0 a
            = (\<lparr>success = False, action = actionAfter cfg a, error = Some (thrownMessage t)\<rparr>,
               cs, w1)"
    by (intro allI impI) (rule executeAction_thrown)
qed

lemma executeAndSummarise_returns:
  "0 < maxConcurrentRequests cfg \<Longrightarrow>
   executeAndSummarise cfg env now w asked actions =
     Some \<lparr>outcome = Inr (foldl countResult emptySummary (fst (runBatch cfg env now w actions))),
           confirmationsRequested = asked,
           apiCalls = fst (snd (runBatch cfg env now w actions)),
           finalState = snd (snd (runBatch cfg env now w actions))\<rparr>"
  by (simp add: executeAndSummarise_def executeActions_sequential split: prod.split)

lemma countResult_counters:
  "results (countResult s r) = results s @ [r]"
  "totalProcessed (countResult s r) = totalProcessed s + 1"
  "errors (countResult s r) = errors s + (if success r then 0 else 1)"
  "created (countResult s r)
     = created s + (if success r \<and> type (action r) = create then 1 else 0)"
  "moved (countResult s r)
     = moved s + (if success r \<and> type (action r) = move then 1 else 0)"
  "deactivated (countResult s r)
     = deactivated s + (if success r \<and> type (action r) = deactivate then 1 else 0)"
  "updated (countResult s r)
     = updated s + (if success r \<and> type (action r) = update then 1 else 0)"
  by (simp_all add: countResult_def Let_def split: ActionType.split)

lemma foldl_countResult:
  "results (foldl countResult s rs) = results s @ rs"
  "totalProcessed (foldl countResult s rs) = totalProcessed s + length rs"
  "errors (foldl countResult s rs) = errors s + length (filter (\<lambda>r. \<not> success r) rs)"
  "created (foldl countResult s rs)
     = created s + length (filter (\<lambda>r. success r \<and> type (action r) = create) rs)"
  "moved (foldl countResult s rs)
     = moved s + length (filter (\<lambda>r. success r \<and> type (action r) = move) rs)"
  "deactivated (foldl countResult s rs)
     = deactivated s + length (filter (\<lambda>r. success r \<and> type (action r) = deactivate) rs)"
  "updated (foldl countResult s rs)
     = updated s + length (filter (\<lambda>r. success r \<and> type (action r) = update) rs)"
  by (induction rs arbitrary: s) (simp_all add: countResult_counters)

lemma six_way_count:
  "length (filter (\<lambda>r. success r \<and> type (action r) = create) rs)
   + length (filter (\<lambda>r. success r \<and> type (action r) = move) rs)
   + length (filter (\<lambda>r. success r \<and> type (action r) = deactivate) rs)
   + length (filter (\<lambda>r. success r \<and> type (action r) = update) rs)
   + length (filter (\<lambda>r. \<not> success r) rs)
   + length (filter (\<lambda>r. success r \<and> type (action r) = move_device) rs) = length rs"
proof (induction rs)
  case Nil
  then show ?case by simp
next
  case (Cons r rs)
  then show ?case by (cases "type (action r)") simp_all
qed

lemma summary_of_results:
  fixes rs :: "SyncResult list"
  defines "s \<equiv> foldl countResult emptySummary rs"
  shows "results s = rs"
    and "totalProcessed s = length rs"
    and "errors s = length (filter (\<lambda>r. \<not> success r) rs)"
    and "created s = length (filter (\<lambda>r. success r \<and> type (action r) = create) rs)"
    and "moved s = length (filter (\<lambda>r. success r \<and> type (action r) = move) rs)"
    and "deactivated s = length (filter (\<lambda>r. success r \<and> type (action r) = deactivate) rs)"
    and "updated s = length (filter (\<lambda>r. success r \<and> type (action r) = update) rs)"
  unfolding s_def by (simp_all add: foldl_countResult emptySummary_def)

text \<open>
  Claim C10. A run that is not a dry run, with a positive concurrency limit, returns. When
  the confirmation gate stops it, nothing is executed and the summary is the empty one.
  Otherwise the plan is executed and the summary is built from the results that
  \<open>executeActions\<close> returned: \<open>results\<close> is that list, \<open>totalProcessed\<close> its length, \<open>errors\<close>
  the number of its failed results, and each of \<open>created\<close>, \<open>moved\<close>, \<open>deactivated\<close>,
  \<open>updated\<close> the number of its successful results of that kind; a successful device move
  is counted by none of them. So the four counters, \<open>errors\<close> and the number of successful
  device moves add up to \<open>totalProcessed\<close>, the four counters and \<open>errors\<close> never exceed
  it, and they stay strictly below it as soon as one device move succeeded.
\<close>

theorem summary_counters:
  fixes cfg root env now console users devs w students
  defines "plan \<equiv> determineActions cfg root now students users devs"
  defines "n \<equiv> length (filter (\<lambda>a. type a = deactivate) plan)"
  defines "rs \<equiv> fst (runBatch cfg env now w plan)"
  assumes live: "\<not> dryRun cfg" and pos: "0 < maxConcurrentRequests cfg"
  shows "executeActions cfg env now w plan = Some (runBatch cfg env now w plan)
     \<and> (requireConfirmationThreshold cfg < n \<and> \<not> confirmBulkDeactivation console n \<longrightarrow>
           sync cfg root env now console (Inr (users, devs)) w students
             = Some \<lparr>outcome = Inr emptySummary, confirmationsRequested = [n],
                     apiCalls = [], finalState = w\<rparr>)
     \<and> (\<not> (requireConfirmationThreshold cfg < n \<and> \<not> confirmBulkDeactivation console n) \<longrightarrow>
           (\<exists>summary.
              sync cfg root env now console (Inr (users, devs)) w students
                = Some \<lparr>outcome = Inr summary,
                        confirmationsRequested =
                          (if requireConfirmationThreshold cfg < n then [n] else []),
                        apiCalls = fst (snd (runBatch cfg env now w plan)),
                        finalState = snd (snd (runBatch cfg env now w plan))\<rparr>
              \<and> results summary = rs
              \<and> totalProcessed summary = length rs
              \<and> errors summary = length (filter (\<lambda>r. \<not> success r) rs)
              \<and> created summary
                  = length (filter (\<lambda>r. success r \<and> type (action r) = create) rs)
              \<and> moved summary
                  = length (filter (\<lambda>r. success r \<and> type (action r) = move) rs)
              \<and> deactivated summary
                  = length (filter (\<lambda>r. success r \<and> type (action r) = deactivate) rs)
              \<and> updated summary
                  = length (filter (\<lambda>r. success r \<and> type (action r) = update) rs)
              \<and> created summary + moved summary + deactivated summary + updated summary
                  + errors summary
                  + length (filter (\<lambda>r. success r \<and> type (action r) = move_device) rs)
                 = totalProcessed summary
              \<and> created summary + moved summary + deactivated summary + updated summary
                  + errors summary \<le> totalProcessed summary
              \<and> ((\<exists>r \<in> set rs. success r \<and> type (action r) = move_device) \<longrightarrow>
                   created summary + moved summary + deactivated summary + updated summary
                   + errors summary < totalProcessed summary)))"
proof (intro conjI impI)
  show "executeActions cfg env now w plan = Some (runBatch cfg env now w plan)"
    using pos by (rule executeActions_sequential)
next
  assume "requireConfirmationThreshold cfg < n \<and> \<not> confirmBulkDeactivation console n"
  then show "sync cfg root env now console (Inr (users, devs)) w students
             = Some \<lparr>outcome = Inr emptySummary, confirmationsRequested = [n],
                     apiCalls = [], finalState = w\<rparr>"
    unfolding n_def plan_def sync_def Let_def using live by simp
next
  assume pass: "\<not> (requireConfirmationThreshold cfg < n \<and> \<not> confirmBulkDeactivation console n)"
  let ?s = "foldl countResult emptySummary rs"
  note f = summary_of_results [of rs]
  let ?k = "length (filter (\<lambda>r. success r \<and> type (action r) = move_device) rs)"
  let ?m = "created ?s + moved ?s + deactivated ?s + updated ?s + errors ?s"
  have run: "sync cfg root env now console (Inr (users, devs)) w students
                = Some \<lparr>outcome = Inr ?s,
                        confirmationsRequested =
                          (if requireConfirmationThreshold cfg < n then [n] else []),
                        apiCalls = fst (snd (runBatch cfg env now w plan)),
                        finalState = snd (snd (runBatch cfg env now w plan))\<rparr>"
    using pass live unfolding rs_def n_def plan_def sync_def Let_def
    by (simp add: executeAndSummarise_returns [OF pos])
  have total: "?m + ?k = totalProcessed ?s"
    using six_way_count [of rs] by (simp only: f)
  then have le: "?m \<le> totalProcessed ?s" by linarith
  have strict: "?m < totalProcessed ?s"
    if "\<exists>r \<in> set rs. success r \<and> type (action r) = move_device"
  proof -
    from that have "filter (\<lambda>r. success r \<and> type (action r) = move_device) rs \<noteq> []"
      by (simp add: filter_empty_conv)
    then have "0 < ?k" by simp
    with total show ?thesis by linarith
  qed
  show "\<exists>summary.
              sync cfg root env now console (Inr (users, devs)) w students
                = Some \<lparr>outcome = Inr summary,
                        confirmationsRequested =
                          (if requireConfirmationThreshold cfg < n then [n] else []),
                        apiCalls = fst (snd (runBatch cfg env now w plan)),
                        finalState = snd (snd (runBatch cfg env now w plan))\<rparr>
              \<and> results summary = rs
              \<and> totalProcessed summary = length rs
              \<and> errors summary = length (filter (\<lambda>r. \<not> success r) rs)
              \<and> created summary
                  = length (filter (\<lambda>r. success r \<and> type (action r) = create) rs)
              \<and> moved summary
                  = length (filter (\<lambda>r. success r \<and> type (action r) = move) rs)
              \<and> deactivated summary
                  = length (filter (\<lambda>r. success r \<and> type (action r) = deactivate) rs)
              \<and> updated summary
                  = length (filter (\<lambda>r. success r \<and> type (action r) = update) rs)
              \<and> created summary + moved summary + deactivated summary + updated summary
                  + errors summary
                  + length (filter (\<lambda>r. success r \<and> type (action r) = move_device) rs)
                 = totalProcessed summary
              \<and> created summary + moved summary + deactivated summary + updated summary
                  + errors summary \<le> totalProcessed summary
              \<and> ((\<exists>r \<in> set rs. success r \<and> type (action r) = move_device) \<longrightarrow>
                   created summary + moved summary + deactivated summary + updated summary
                   + errors summary < totalProcessed summary)"
  proof (rule exI [of _ ?s], intro conjI impI)
    show "sync cfg root env now console (Inr (users, devs)) w students
                = Some \<lparr>outcome = Inr ?s,
                        confirmationsRequested =
                          (if requireConfirmationThreshold cfg < n then [n] else []),
                        apiCalls = fst (snd (runBatch cfg env now w plan)),
                        finalState = snd (snd (runBatch cfg env now w plan))\<rparr>"
      by (rule run)
  qed (use f total le strict in simp_all)
qed

theorem executor_isolation_witness:
  "0 < maxConcurrentRequests plainConfig
   \<and> executeActions plainConfig quietEnvironment testDate () [moveWithoutUser, suspendBob, createJane]
       = Some (runBatch plainConfig quietEnvironment testDate () [moveWithoutUser, suspendBob, createJane])
   \<and> map success (fst (runBatch plainConfig quietEnvironment testDate ()
         [moveWithoutUser, suspendBob, createJane])) = [False, True, True]
   \<and> map error (fst (runBatch plainConfig quietEnvironment testDate ()
         [moveWithoutUser, suspendBob, createJane]))
       = [Some ''Current user not provided for move action'', None, None]
   \<and> map action (fst (runBatch plainConfig quietEnvironment testDate ()
         [moveWithoutUser, suspendBob, createJane])) = [moveWithoutUser, suspendBob, createJane]"
proof -
  have pos: "0 < maxConcurrentRequests plainConfig"
    by (simp add: plainConfig_def)
  have ev: "map success (fst (runBatch plainConfig quietEnvironment testDate ()
         [moveWithoutUser, suspendBob, createJane])) = [False, True, True]
   \<and> map error (fst (runBatch plainConfig quietEnvironment testDate ()
         [moveWithoutUser, suspendBob, createJane]))
       = [Some ''Current user not provided for move action'', None, None]
   \<and> map (actionAfter plainConfig) [moveWithoutUser, suspendBob, createJane]
       = [moveWithoutUser, suspendBob, createJane]"
    by code_simp
  from executor_isolation [OF pos, of quietEnvironment testDate "()"
      "[moveWithoutUser, suspendBob, createJane]"] pos ev
  show ?thesis by simp
qed

theorem summary_counters_witness:
  "\<not> dryRun plainConfig \<and> 0 < maxConcurrentRequests plainConfig
   \<and> (case sync plainConfig ''/org/student'' quietEnvironment testDate pipeConsole
              (Inr ([annAccount], [''CHR001'' \<mapsto> chromebook])) () [annWithDevice, janeNew] of
         None \<Rightarrow> False
       | Some run \<Rightarrow>
           confirmationsRequested run = []
           \<and> (case outcome run of
                Inl thrown \<Rightarrow> False
              | Inr summary \<Rightarrow>
                  map (\<lambda>r. (success r, type (action r))) (results summary)
                    = [(True, move), (True, create), (True, move_device)]
                  \<and> totalProcessed summary = 3 \<and> created summary = 1 \<and> moved summary = 1
                  \<and> deactivated summary = 0 \<and> updated summary = 0 \<and> errors summary = 0
                  \<and> created summary + moved summary + deactivated summary + updated summary
                      + errors summary < totalProcessed summary))"
proof -
  let ?plan = "determineActions plainConfig ''/org/student'' testDate [annWithDevice, janeNew]
                 [annAccount] [''CHR001'' \<mapsto> chromebook]"
  let ?rs = "fst (runBatch plainConfig quietEnvironment testDate () ?plan)"
  have live: "\<not> dryRun plainConfig" and pos: "0 < maxConcurrentRequests plainConfig"
    by (simp_all add: plainConfig_def)
  have thr: "requireConfirmationThreshold plainConfig = 5"
    by (simp add: plainConfig_def)
  have n: "length (filter (\<lambda>a. type a = deactivate) ?plan) = 0"
    by code_simp
  have shape: "map (\<lambda>r. (success r, type (action r))) ?rs
                 = [(True, move), (True, create), (True, move_device)]"
    by code_simp
  have via: "length (filter (\<lambda>r. Q (success r, type (action r))) rs)
               = length (filter Q (map (\<lambda>r. (success r, type (action r))) rs))"
    for Q and rs :: "SyncResult list"
    by (simp add: filter_map comp_def)
  have "length ?rs = length (map (\<lambda>r. (success r, type (action r))) ?rs)"
    by simp
  then have len: "length ?rs = 3"
    unfolding shape by simp
  have counts:
    "length (filter (\<lambda>r. \<not> success r) ?rs) = 0"
    "length (filter (\<lambda>r. success r \<and> type (action r) = create) ?rs) = 1"
    "length (filter (\<lambda>r. success r \<and> type (action r) = move) ?rs) = 1"
    "length (filter (\<lambda>r. success r \<and> type (action r) = deactivate) ?rs) = 0"
    "length (filter (\<lambda>r. success r \<and> type (action r) = update) ?rs) = 0"
    using via [of "\<lambda>p. \<not> fst p" ?rs] via [of "\<lambda>p. fst p \<and> snd p = create" ?rs]
      via [of "\<lambda>p. fst p \<and> snd p = move" ?rs]
      via [of "\<lambda>p. fst p \<and> snd p = deactivate" ?rs]
      via [of "\<lambda>p. fst p \<and> snd p = update" ?rs]
    unfolding shape by simp_all
  from summary_counters [OF live pos, where root = "''/org/student''" and now = testDate
      and students = "[annWithDevice, janeNew]" and users = "[annAccount]"
      and devs = "[''CHR001'' \<mapsto> chromebook]" and env = quietEnvironment and w = "()"
      and console = pipeConsole]
    live pos thr n shape len counts
  show ?thesis by auto
qed

section \<open>The confirmation of bulk deactivations\<close>

text \<open>
  Claim C7. In a run that is not a dry run, with a positive concurrency limit, for the
  plan computed from any roster and snapshots: when the plan holds more deactivations
  than the confirmation threshold and the confirmation is denied, the confirmation was
  requested once and the run ends with the empty summary and not a single call to the
  directory, so no deactivation runs; when it is granted, the confirmation was requested
  once and the whole plan is executed; when the plan holds at most as many deactivations
  as the threshold, no confirmation is requested and the whole plan is executed.
\<close>

theorem bulk_deactivation_gate:
  fixes cfg root env now console users devs w students
  defines "plan \<equiv> determineActions cfg root now students users devs"
  defines "n \<equiv> length (filter (\<lambda>a. type a = deactivate) plan)"
  defines "run \<equiv> sync cfg root env now console (Inr (users, devs)) w students"
  assumes live: "\<not> dryRun cfg" and pos: "0 < maxConcurrentRequests cfg"
  shows "(requireConfirmationThreshold cfg < n \<and> \<not> confirmBulkDeactivation console n \<longrightarrow>
            run = Some \<lparr>outcome = Inr emptySummary, confirmationsRequested = [n],
                        apiCalls = [], finalState = w\<rparr>)
     \<and> (requireConfirmationThreshold cfg < n \<and> confirmBulkDeactivation console n \<longrightarrow>
            run = Some \<lparr>outcome = Inr (foldl countResult emptySummary
                                          (fst (runBatch cfg env now w plan))),
                        confirmationsRequested = [n],
                        apiCalls = fst (snd (runBatch cfg env now w plan)),
                        finalState = snd (snd (runBatch cfg env now w plan))\<rparr>)
     \<and> (n \<le> requireConfirmationThreshold cfg \<longrightarrow>
            run = Some \<lparr>outcome = Inr (foldl countResult emptySummary
                                          (fst (runBatch cfg env now w plan))),
                        confirmationsRequested = [],
                        apiCalls = fst (snd (runBatch cfg env now w plan)),
                        finalState = snd (snd (runBatch cfg env now w plan))\<rparr>)"
  unfolding run_def n_def plan_def sync_def Let_def
  using live by (simp add: executeAndSummarise_returns [OF pos])

theorem bulk_deactivation_gate_witness:
  "\<not> dryRun strictConfig \<and> 0 < maxConcurrentRequests strictConfig
   \<and> requireConfirmationThreshold strictConfig
       < length (filter (\<lambda>a. type a = deactivate)
           (determineActions strictConfig ''/org/student'' testDate [bobGraduated] [bobAccount] Map.empty))
   \<and> \<not> confirmBulkDeactivation pipeConsole 1
   \<and> confirmBulkDeactivation terminalYes 1
   \<and> sync strictConfig ''/org/student'' quietEnvironment testDate pipeConsole
         (Inr ([bobAccount], Map.empty)) () [bobGraduated]
       = Some \<lparr>outcome = Inr emptySummary, confirmationsRequested = [1], apiCalls = [],
               finalState = ()\<rparr>
   \<and> map_option apiCalls
        (sync strictConfig ''/org/student'' quietEnvironment testDate terminalYes
           (Inr ([bobAccount], Map.empty)) () [bobGraduated])
       = Some [SuspendUser ''shared@school.edu'']"
proof -
  have live: "\<not> dryRun strictConfig" and pos: "0 < maxConcurrentRequests strictConfig"
    by (simp_all add: strictConfig_def plainConfig_def)
  have n: "length (filter (\<lambda>a. type a = deactivate)
           (determineActions strictConfig ''/org/student'' testDate [bobGraduated] [bobAccount] Map.empty)) = 1"
    by code_simp
  have thr: "requireConfirmationThreshold strictConfig = 0"
    by (simp add: strictConfig_def)
  have deny: "\<not> confirmBulkDeactivation pipeConsole 1"
    by (simp add: confirmBulkDeactivation_def pipeConsole_def)
  have grant: "confirmBulkDeactivation terminalYes 1"
    by code_simp
  have calls: "fst (snd (runBatch strictConfig quietEnvironment testDate ()
          (determineActions strictConfig ''/org/student'' testDate [bobGraduated] [bobAccount] Map.empty)))
        = [SuspendUser ''shared@school.edu'']"
    by code_simp
  from bulk_deactivation_gate [OF live pos, of "''/org/student''" testDate "[bobGraduated]"
      "[bobAccount]" Map.empty pipeConsole quietEnvironment "()"]
    bulk_deactivation_gate [OF live pos, of "''/org/student''" testDate "[bobGraduated]"
      "[bobAccount]" Map.empty terminalYes quietEnvironment "()"]
    live pos n thr deny grant calls
  show ?thesis by simp
qed

section \<open>Password configuration errors\<close>

lemma buildCharacterSet_empty:
  "includeUppercase pc = Some False \<Longrightarrow> includeLowercase pc = Some False \<Longrightarrow>
   includeNumbers pc = Some False \<Longrightarrow> \<not> truthyBool (includeSymbols pc) \<Longrightarrow>
   buildCharacterSet pc = []"
  by (simp add: buildCharacterSet_def)

lemma generatePassword_disabled:
  assumes "allCharacterClassesDisabled cfg"
  shows "generatePassword cfg env w st
         = (Inl (ErrorObject ''No character sets enabled for random password generation''), w)"
proof -
  from assms obtain pc where pc: "passwordConfig cfg = Some pc" "pwType pc = random"
    "includeUppercase pc = Some False" "includeLowercase pc = Some False"
    "includeNumbers pc = Some False" "\<not> truthyBool (includeSymbols pc)"
    by (auto simp add: allCharacterClassesDisabled_def split: option.splits)
  from buildCharacterSet_empty [OF pc(3-6)] pc(1,2) show ?thesis
    by (simp add: generatePassword_def generateRandomPassword_def Let_def)
qed

lemma createUser_disabled:
  "allCharacterClassesDisabled cfg \<Longrightarrow>
   createUser cfg env now w a
     = (Some (ErrorObject ''No character sets enabled for random password generation''), [], w)"
  by (simp add: createUser_def Let_def generatePassword_disabled)

lemma executeAction_create_disabled:
  "allCharacterClassesDisabled cfg \<Longrightarrow> type a = create \<Longrightarrow>
   executeAction cfg env now w a
     = (\<lparr>success = False, action = actionAfter cfg a,
         error = Some ''No character sets enabled for random password generation''\<rparr>, [], w)"
  by (simp add: executeAction_def runHandler_def createUser_disabled thrownMessage_def)

lemma callApi_calls: "fst (snd (callApi env w c)) = [c]"
  by (simp add: callApi_def split: prod.split)

lemma other_handlers_calls:
  "type a \<noteq> create \<Longrightarrow> c \<in> set (fst (snd (runHandler cfg env now w a))) \<Longrightarrow> \<not> isCreateUser c"
  by (cases "type a")
     (auto simp add: runHandler_def moveUser_def deactivateUser_def updateUser_def moveDevice_def
        callApi_calls isCreateUser_def split: option.splits if_splits)

lemma executeAction_calls:
  "fst (snd (executeAction cfg env now w a)) = fst (snd (runHandler cfg env now w a))"
  by (simp add: executeAction_def split: prod.split option.split)

lemma executeAction_no_create_call:
  assumes "allCharacterClassesDisabled cfg" "c \<in> set (fst (snd (executeAction cfg env now w a)))"
  shows "\<not> isCreateUser c"
proof (cases "type a = create")
  case True
  from assms(2) show ?thesis
    by (simp add: executeAction_create_disabled [OF assms(1) True])
next
  case False
  from other_handlers_calls [OF False] assms(2) show ?thesis
    by (simp add: executeAction_calls)
qed

lemma runBatch_no_create_call:
  assumes "allCharacterClassesDisabled cfg"
  shows "c \<in> set (fst (snd (runBatch cfg env now w actions))) \<Longrightarrow> \<not> isCreateUser c"
proof (induction actions arbitrary: w)
  case Nil
  then show ?case by simp
next
  case (Cons a rest)
  from Cons.prems have "c \<in> set (fst (snd (executeAction cfg env now w a)))
     \<or> c \<in> set (fst (snd (runBatch cfg env now (snd (snd (executeAction cfg env now w a))) rest)))"
    unfolding runBatch_calls_Cons by simp
  then show ?case
  proof
    assume "c \<in> set (fst (snd (executeAction cfg env now w a)))"
    with assms show ?thesis by (rule executeAction_no_create_call)
  next
    assume "c \<in> set (fst (snd (runBatch cfg env now (snd (snd (executeAction cfg env now w a))) rest)))"
    then show ?thesis by (rule Cons.IH)
  qed
qed

lemma type_actionAfter [simp]: "type (actionAfter cfg a) = type a"
  by (simp add: actionAfter_def ensureEmail_def)

lemma runBatch_skips_creates:
  assumes "allCharacterClassesDisabled cfg"
  shows "runBatch cfg env now w (filter (\<lambda>a. type a \<noteq> create) actions)
         = (filter (\<lambda>r. type (action r) \<noteq> create) (fst (runBatch cfg env now w actions)),
            fst (snd (runBatch cfg env now w actions)),
            snd (snd (runBatch cfg env now w actions)))"
proof (induction actions arbitrary: w)
  case Nil
  then show ?case by simp
next
  case (Cons a rest)
  show ?case
  proof (cases "type a = create")
    case True
    with Cons [of w] show ?thesis
      by (simp add: executeAction_create_disabled [OF assms True] split: prod.split)
  next
    case False
    obtain r cs w1 where e: "executeAction cfg env now w a = (r, cs, w1)"
      by (cases "executeAction cfg env now w a") auto
    with executeAction_action [of cfg env now w a] False have "type (action r) \<noteq> create"
      by simp
    with False e Cons [of w1] show ?thesis by (simp split: prod.split)
  qed
qed

text \<open>
  Claim C3, amended. With the random strategy and all character classes disabled, the
  error is not raised before the actions execute: it is thrown inside the handler of
  each create action and ends up in the result of that action, with \<open>success\<close> false and
  the message recorded, and no call that creates an account reaches the directory. For
  every positive concurrency limit the executor returns one result per action; the other
  actions run as they would in a plan without the create actions; and \<open>sync\<close> returns its
  summary rather than throwing.
\<close>

theorem password_configuration_error_per_action:
  assumes off: "allCharacterClassesDisabled cfg" and pos: "0 < maxConcurrentRequests cfg"
  shows "executeActions cfg env now w actions = Some (runBatch cfg env now w actions)
     \<and> length (fst (runBatch cfg env now w actions)) = length actions
     \<and> (\<forall>i < length actions. type (actions ! i) = create \<longrightarrow>
           fst (runBatch cfg env now w actions) ! i
             = \<lparr>success = False, action = actionAfter cfg (actions ! i),
                error = Some ''No character sets enabled for random password generation''\<rparr>)
     \<and> (\<forall>c \<in> set (fst (snd (runBatch cfg env now w actions))). \<not> isCreateUser c)
     \<and> runBatch cfg env now w (filter (\<lambda>a. type a \<noteq> create) actions)
         = (filter (\<lambda>r. type (action r) \<noteq> create) (fst (runBatch cfg env now w actions)),
            fst (snd (runBatch cfg env now w actions)),
            snd (snd (runBatch cfg env now w actions)))
     \<and> (\<exists>run summary.
           sync cfg root env now console (Inr (users, devs)) w students = Some run
           \<and> outcome run = Inr summary
           \<and> (\<forall>c \<in> set (apiCalls run). \<not> isCreateUser c))"
proof (intro conjI)
  show "executeActions cfg env now w actions = Some (runBatch cfg env now w actions)"
    using pos by (rule executeActions_sequential)
  show "length (fst (runBatch cfg env now w actions)) = length actions"
    by (rule runBatch_length)
  show "\<forall>i < length actions. type (actions ! i) = create \<longrightarrow>
           fst (runBatch cfg env now w actions) ! i
             = \<lparr>success = False, action = actionAfter cfg (actions ! i),
                error = Some ''No character sets enabled for random password generation''\<rparr>"
  proof (intro allI impI)
    fix i assume i: "i < length actions" and c: "type (actions ! i) = create"
    show "fst (runBatch cfg env now w actions) ! i
             = \<lparr>success = False, action = actionAfter cfg (actions ! i),
                error = Some ''No character sets enabled for random password generation''\<rparr>"
      by (simp add: runBatch_nth [OF i] executeAction_create_disabled [OF off c])
  qed
  show "\<forall>c \<in> set (fst (snd (runBatch cfg env now w actions))). \<not> isCreateUser c"
    using runBatch_no_create_call [OF off] by (intro ballI)
  show "runBatch cfg env now w (filter (\<lambda>a. type a \<noteq> create) actions)
         = (filter (\<lambda>r. type (action r) \<noteq> create) (fst (runBatch cfg env now w actions)),
            fst (snd (runBatch cfg env now w actions)),
            snd (snd (runBatch cfg env now w actions)))"
    using off by (rule runBatch_skips_creates)
  have nc: "\<not> isCreateUser c" if "c \<in> set (fst (snd (runBatch cfg env now w plan)))"
    for c plan
    using that by (rule runBatch_no_create_call [OF off])
  show "\<exists>run summary.
           sync cfg root env now console (Inr (users, devs)) w students = Some run
           \<and> outcome run = Inr summary
           \<and> (\<forall>c \<in> set (apiCalls run). \<not> isCreateUser c)"
    unfolding sync_def Let_def
    using nc by (auto simp add: executeAndSummarise_returns [OF pos])
qed

theorem password_configuration_error_per_action_witness:
  "allCharacterClassesDisabled noClassesConfig \<and> 0 < maxConcurrentRequests noClassesConfig
   \<and> executeActions noClassesConfig quietEnvironment testDate () [createJane, suspendBob]
       = Some ([\<lparr>success = False, action = createJane,
                  error = Some ''No character sets enabled for random password generation''\<rparr>,
                \<lparr>success = True, action = suspendBob, error = None\<rparr>],
               [SuspendUser ''shared@school.edu''], ())"
proof -
  have off: "allCharacterClassesDisabled noClassesConfig"
    by code_simp
  have pos: "0 < maxConcurrentRequests noClassesConfig"
    by (simp add: noClassesConfig_def plainConfig_def)
  have ev: "runBatch noClassesConfig quietEnvironment testDate () [createJane, suspendBob]
       = ([\<lparr>success = False, action = createJane,
                  error = Some ''No character sets enabled for random password generation''\<rparr>,
                \<lparr>success = True, action = suspendBob, error = None\<rparr>],
               [SuspendUser ''shared@school.edu''], ())"
    by code_simp
  from password_configuration_error_per_action [OF off pos, of quietEnvironment testDate "()"
      "[createJane, suspendBob]"] off pos ev
  show ?thesis by simp
qed

text \<open>
  The error is not fatal and not raised before the actions: in this run the account is
  moved and the move is recorded before the create action fails, and \<open>sync\<close> returns a
  summary.
\<close>

theorem password_configuration_error_counterexample:
  "(case sync noClassesConfig ''/org/student'' quietEnvironment testDate pipeConsole
           (Inr ([annAccount], Map.empty)) () [annWithDevice, janeNew] of
      None \<Rightarrow> False
    | Some run \<Rightarrow>
        apiCalls run = [MoveUserToOU ''Ann.Lee2028@school.edu'' ''/org/student/high/2028/ann.lee'']
        \<and> (case outcome run of
             Inl thrown \<Rightarrow> False
           | Inr summary \<Rightarrow>
               map success (results summary) = [True, False]
               \<and> map (\<lambda>r. type (action r)) (results summary) = [move, create]
               \<and> moved summary = 1 \<and> errors summary = 1))"
  by code_simp

end
